theory Spec2Isabelle
  imports Complex_Main "HOL-Library.AList"
begin

section \<open>JavaScript numbers\<close>

text \<open>
  The pager of \<^verbatim>\<open>src/TabViewPagerPan.js\<close> computes with JavaScript numbers, which are IEEE 754
  binary64 values. A number is modelled as a finite real, one of the two infinities, or
  \<^verbatim>\<open>NaN\<close>. The special values follow IEEE 754: \<^verbatim>\<open>0/0\<close>, \<^verbatim>\<open>Infinity/Infinity\<close>,
  \<^verbatim>\<open>Infinity - Infinity\<close> and \<^verbatim>\<open>0 * Infinity\<close> are \<^verbatim>\<open>NaN\<close>, every operation on \<^verbatim>\<open>NaN\<close> is
  \<^verbatim>\<open>NaN\<close>, and every comparison with \<^verbatim>\<open>NaN\<close> is false. The sign of zero is not modelled:
  the comparisons do not see it, and the divisors of the pager (\<^verbatim>\<open>Math.abs(dx)\<close>, the
  viewport width and the constant 1000000) are never a computed negative zero. An input
  may be any real number; what the operations return is a double.
\<close>

datatype jsnum = NaN | NegInf | Fin real | PosInf

text \<open>
  The result of a subtraction, a multiplication or a division of finite numbers is the exact
  result rounded to binary64: to the nearest multiple of the spacing of the doubles around
  it, ties to the even multiple, and to an infinity when that multiple reaches \<open>2^1024\<close>.
  For a magnitude \<open>a\<close>, \<open>binade a\<close> is the exponent of its binade, not below the smallest
  normal exponent -1022 (so that underflow is gradual), and \<open>ulp a\<close> is the spacing of the
  doubles there, 52 binary places below.
\<close>

definition binade :: "real \<Rightarrow> int" where
  "binade a = max \<lfloor>log 2 a\<rfloor> (- 1022)"

definition ulp :: "real \<Rightarrow> real" where
  "ulp a = 2 powi (binade a - 52)"

definition rne :: "real \<Rightarrow> int" where
  "rne m =
     (let f = \<lfloor>m\<rfloor>
      in if m - of_int f < 1 / 2 then f
         else if 1 / 2 < m - of_int f then f + 1
         else if even f then f else f + 1)"

definition round64 :: "real \<Rightarrow> jsnum" where
  "round64 x =
     (if x = 0 then Fin 0
      else (let v = of_int (rne (x / ulp \<bar>x\<bar>)) * ulp \<bar>x\<bar>
            in if 2 powi 1024 \<le> \<bar>v\<bar> then (if 0 < x then PosInf else NegInf)
               else Fin v))"

fun js_abs :: "jsnum \<Rightarrow> jsnum" where
  "js_abs NaN = NaN"
| "js_abs NegInf = PosInf"
| "js_abs PosInf = PosInf"
| "js_abs (Fin x) = Fin \<bar>x\<bar>"

fun js_neg :: "jsnum \<Rightarrow> jsnum" where
  "js_neg NaN = NaN"
| "js_neg NegInf = PosInf"
| "js_neg PosInf = NegInf"
| "js_neg (Fin x) = Fin (- x)"

fun js_sub :: "jsnum \<Rightarrow> jsnum \<Rightarrow> jsnum" where
  "js_sub NaN b = NaN"
| "js_sub a NaN = NaN"
| "js_sub (Fin x) (Fin y) = round64 (x - y)"
| "js_sub (Fin x) PosInf = NegInf"
| "js_sub (Fin x) NegInf = PosInf"
| "js_sub PosInf PosInf = NaN"
| "js_sub PosInf b = PosInf"
| "js_sub NegInf NegInf = NaN"
| "js_sub NegInf b = NegInf"

fun js_mul :: "jsnum \<Rightarrow> jsnum \<Rightarrow> jsnum" where
  "js_mul NaN b = NaN"
| "js_mul a NaN = NaN"
| "js_mul (Fin x) (Fin y) = round64 (x * y)"
| "js_mul (Fin x) PosInf = (if x = 0 then NaN else if 0 < x then PosInf else NegInf)"
| "js_mul (Fin x) NegInf = (if x = 0 then NaN else if 0 < x then NegInf else PosInf)"
| "js_mul PosInf (Fin y) = (if y = 0 then NaN else if 0 < y then PosInf else NegInf)"
| "js_mul NegInf (Fin y) = (if y = 0 then NaN else if 0 < y then NegInf else PosInf)"
| "js_mul PosInf PosInf = PosInf"
| "js_mul PosInf NegInf = NegInf"
| "js_mul NegInf PosInf = NegInf"
| "js_mul NegInf NegInf = PosInf"

fun js_div :: "jsnum \<Rightarrow> jsnum \<Rightarrow> jsnum" where
  "js_div NaN b = NaN"
| "js_div a NaN = NaN"
| "js_div (Fin x) (Fin y) =
     (if y \<noteq> 0 then round64 (x / y)
      else if x = 0 then NaN
      else if 0 < x then PosInf else NegInf)"
| "js_div (Fin x) PosInf = Fin 0"
| "js_div (Fin x) NegInf = Fin 0"
| "js_div PosInf (Fin y) = (if 0 \<le> y then PosInf else NegInf)"
| "js_div NegInf (Fin y) = (if 0 \<le> y then NegInf else PosInf)"
| "js_div PosInf b = NaN"
| "js_div NegInf b = NaN"

fun js_lt :: "jsnum \<Rightarrow> jsnum \<Rightarrow> bool" where
  "js_lt NaN b = False"
| "js_lt a NaN = False"
| "js_lt (Fin x) (Fin y) = (x < y)"
| "js_lt a NegInf = False"
| "js_lt PosInf b = False"
| "js_lt NegInf b = True"
| "js_lt (Fin x) PosInf = True"

text \<open>Strict equality \<^verbatim>\<open>===\<close> on numbers: \<^verbatim>\<open>NaN\<close> equals nothing, itself included.\<close>

fun js_eq :: "jsnum \<Rightarrow> jsnum \<Rightarrow> bool" where
  "js_eq NaN b = False"
| "js_eq a NaN = False"
| "js_eq a b = (a = b)"

definition js_gt :: "jsnum \<Rightarrow> jsnum \<Rightarrow> bool" where
  "js_gt a b = js_lt b a"

definition js_le :: "jsnum \<Rightarrow> jsnum \<Rightarrow> bool" where
  "js_le a b = (js_lt a b \<or> js_eq a b)"

definition js_ge :: "jsnum \<Rightarrow> jsnum \<Rightarrow> bool" where
  "js_ge a b = js_le b a"

definition js_neq :: "jsnum \<Rightarrow> jsnum \<Rightarrow> bool" where
  "js_neq a b = (\<not> js_eq a b)"

text \<open>An integer of the program (an index, a length) read as a number.\<close>

definition num :: "int \<Rightarrow> jsnum" where
  "num i = Fin (of_int i)"

section \<open>Props, gesture samples and the instance state\<close>

text \<open>
  A JavaScript array: its \<^verbatim>\<open>length\<close> is a 32-bit unsigned integer, so it has fewer than
  \<open>2^32\<close> elements.
\<close>

typedef 'a js_array = "{xs :: 'a list. length xs < 2 ^ 32}"
  morphisms elements js_array
  by (rule exI [of _ "[]"]) simp

definition array_length :: "'a js_array \<Rightarrow> nat" where
  "array_length a = length (elements a)"

type_synonym route = string

record navigationState =
  index :: int
  routes :: "route js_array"

record layout =
  width :: jsnum
  height :: jsnum

text \<open>\<^verbatim>\<open>GestureState\<close> of the pan responder: the fields the pager reads.\<close>

record gestureState =
  dx :: jsnum
  dy :: jsnum
  vx :: jsnum
  vy :: jsnum

text \<open>
  \<^verbatim>\<open>TransitionProps\<close>, \<^verbatim>\<open>TransitionSpec\<close> and \<^verbatim>\<open>TransitionConfigurator\<close> (lines 23 to 31).
  The \<^verbatim>\<open>timing\<close> field is a function of the animation library (\<^verbatim>\<open>Animated.spring\<close> in
  \<^verbatim>\<open>DefaultTransitionSpec\<close>); the other keys of the object are kept as an association
  list.
\<close>

record transitionProps =
  position :: int

datatype timing_fn = Animated_spring | Animated_timing | Animated_decay

datatype jsval = Number jsnum | Boolean bool

record transitionSpec =
  timing :: timing_fn
  transitionConfig :: "(string \<times> jsval) list"

type_synonym transitionConfigurator =
  "transitionProps \<Rightarrow> transitionProps \<Rightarrow> transitionSpec option"

definition DefaultTransitionSpec :: transitionSpec where
  "DefaultTransitionSpec =
     \<lparr> timing = Animated_spring,
       transitionConfig =
         [(''tension'', Number (Fin 300)), (''friction'', Number (Fin 35)),
          (''useNativeDriver'', Boolean True)] \<rparr>"

definition DEAD_ZONE :: jsnum where
  "DEAD_ZONE = Fin 12"

text \<open>
  The props the pager reads. \<^verbatim>\<open>swipeEnabled\<close> is optional (\<open>None\<close> is \<^verbatim>\<open>undefined\<close>);
  \<^verbatim>\<open>configureTransition\<close> is tested for truthiness before it is called, so it is optional
  as well. \<^verbatim>\<open>Platform.OS\<close> is a constant of the environment and is passed to the functions
  that read it.
\<close>

record props =
  navigationState :: navigationState
  layout :: layout
  configureTransition :: "transitionConfigurator option"
  swipeEnabled :: "bool option"
  swipeDistanceThreshold :: jsnum
  swipeVelocityThreshold :: jsnum

definition defaultProps_configureTransition :: transitionConfigurator where
  "defaultProps_configureTransition = (\<lambda>_ _. Some DefaultTransitionSpec)"

text \<open>What the pager does to its collaborators, in the order it does it.\<close>

datatype effect =
    SetValue jsnum
  | StopAnimation
  | Start timing_fn "(string \<times> jsval) list"
  | JumpToIndex jsnum

text \<open>
  The state the callbacks work on: the instance fields \<^verbatim>\<open>_lastOffset\<close>, \<^verbatim>\<open>_lastValue\<close>,
  \<^verbatim>\<open>_isMoving\<close> and \<^verbatim>\<open>_startDirection\<close> (lines 107 to 110; \<open>None\<close> is \<^verbatim>\<open>null\<close>), the
  shared \<^verbatim>\<open>props.offset\<close> (its current value and the target of an animation in flight),
  and the calls made so far.
\<close>

record state =
  lastOffset :: jsnum
  lastValue :: "jsnum option"
  isMoving :: "bool option"
  startDirection :: jsnum
  offset_value :: jsnum
  offset_animation :: "jsnum option"
  calls :: "effect list"

section \<open>The shared offset and the index request\<close>

text \<open>\<^verbatim>\<open>_trackOffset\<close> (lines 112 to 114), the listener the pager subscribes to the offset.\<close>

definition trackOffset :: "jsnum \<Rightarrow> state \<Rightarrow> state" where
  "trackOffset v s = s\<lparr>lastOffset := v\<rparr>"

text \<open>
  Modelled from the spec: \<^verbatim>\<open>props.offset\<close> is an \<^verbatim>\<open>Animated.Value\<close> of the animation library,
  whose code is not part of the repository. The spec describes it as an observable numeric
  cell that is read through a change subscription and a value query on halt, and written
  by a set or by an animation. \<^verbatim>\<open>componentWillMount\<close> subscribes \<^verbatim>\<open>_trackOffset\<close> (line 75),
  so a write notifies it with the new value. Halting passes the current value to the
  callback. An animation that is started is recorded with its target; the frames it
  produces later belong to the animation engine.
\<close>

definition offset_setValue :: "jsnum \<Rightarrow> state \<Rightarrow> state" where
  "offset_setValue v s =
     trackOffset v
       (s\<lparr>offset_value := v, offset_animation := None, calls := calls s @ [SetValue v]\<rparr>)"

definition offset_stopAnimation :: "(jsnum \<Rightarrow> state \<Rightarrow> state) \<Rightarrow> state \<Rightarrow> state" where
  "offset_stopAnimation callback s =
     callback (offset_value s)
       (s\<lparr>offset_animation := None, calls := calls s @ [StopAnimation]\<rparr>)"

definition timing_start :: "timing_fn \<Rightarrow> (string \<times> jsval) list \<Rightarrow> state \<Rightarrow> state" where
  "timing_start t config s =
     s\<lparr>offset_animation :=
          (case map_of config ''toValue'' of Some (Number v) \<Rightarrow> Some v | _ \<Rightarrow> None),
        calls := calls s @ [Start t config]\<rparr>"

text \<open>
  Modelled from the spec: \<^verbatim>\<open>props.jumpToIndex\<close> belongs to the external controller; it is a
  fire-and-forget request for an index change, recorded in \<open>calls\<close>.
\<close>

definition jumpToIndex :: "jsnum \<Rightarrow> state \<Rightarrow> state" where
  "jumpToIndex i s = s\<lparr>calls := calls s @ [JumpToIndex i]\<rparr>"

section \<open>The pager\<close>

text \<open>The instance after \<^verbatim>\<open>componentWillMount\<close> (lines 74 to 86 and 107 to 110).\<close>

definition componentWillMount :: "props \<Rightarrow> jsnum \<Rightarrow> state" where
  "componentWillMount p v =
     \<lparr> lastOffset = num (index (navigationState p)),
       lastValue = None,
       isMoving = None,
       startDirection = Fin 0,
       offset_value = v,
       offset_animation = None,
       calls = [] \<rparr>"

definition transitionTo :: "props \<Rightarrow> int \<Rightarrow> int \<Rightarrow> state \<Rightarrow> state" where
  "transitionTo p fromValue toValue s =
     (let currentTransitionProps = \<lparr> position = fromValue \<rparr>;
          nextTransitionProps = \<lparr> position = toValue \<rparr>;
          spec = (case configureTransition p of
                    None \<Rightarrow> None
                  | Some f \<Rightarrow> f currentTransitionProps nextTransitionProps)
      in case spec of
           Some ts \<Rightarrow>
             timing_start (timing ts)
               (AList.update ''toValue'' (Number (num toValue)) (transitionConfig ts)) s
         | None \<Rightarrow> offset_setValue (num toValue) s)"

definition isIndexInRange :: "props \<Rightarrow> jsnum \<Rightarrow> bool" where
  "isIndexInRange p i =
     (js_ge i (Fin 0) \<and> js_le i (num (int (array_length (routes (navigationState p))) - 1)))"

definition isMovingHorzontally :: "gestureState \<Rightarrow> bool" where
  "isMovingHorzontally g =
     (js_gt (js_abs (dx g)) (js_abs (js_mul (dy g) (Fin 3))) \<and>
      js_gt (js_abs (vx g)) (js_abs (js_mul (vy g) (Fin 3))))"

definition isReverseDirection :: "state \<Rightarrow> gestureState \<Rightarrow> bool" where
  "isReverseDirection s g =
     (if js_gt (startDirection s) (Fin 0) then js_lt (vx g) (Fin 0)
      else js_gt (vx g) (Fin 0))"

definition getNextIndex :: "string \<Rightarrow> props \<Rightarrow> gestureState \<Rightarrow> jsnum" where
  "getNextIndex os p g =
     (let i = index (navigationState p);
          threshold =
            (if os = ''android'' then js_div (swipeVelocityThreshold p) (Fin 1000000)
             else swipeVelocityThreshold p)
      in if js_gt (js_abs (dx g)) (swipeDistanceThreshold p) \<or>
            js_gt (js_abs (vx g)) threshold
         then (let nextIndex = js_sub (num i) (js_div (dx g) (js_abs (dx g)))
               in if isIndexInRange p nextIndex then nextIndex else num i)
         else num i)"

definition canMoveScreen :: "props \<Rightarrow> gestureState \<Rightarrow> state \<Rightarrow> bool \<times> state" where
  "canMoveScreen p g s =
     (if swipeEnabled p = Some False then (False, s)
      else
        (let i = index (navigationState p);
             n = int (array_length (routes (navigationState p)));
             canMove =
               (isMovingHorzontally g \<and>
                ((js_ge (dx g) DEAD_ZONE \<and> js_ge (num i) (Fin 0)) \<or>
                 (js_le (dx g) (js_neg DEAD_ZONE) \<and> js_le (num i) (num (n - 1)))))
         in (canMove, if canMove then s\<lparr>startDirection := dx g\<rparr> else s)))"

definition startGesture :: "state \<Rightarrow> state" where
  "startGesture s = offset_stopAnimation (\<lambda>v t. t\<lparr>lastValue := Some v\<rparr>) s"

definition respondToGesture :: "props \<Rightarrow> gestureState \<Rightarrow> state \<Rightarrow> state" where
  "respondToGesture p g s =
     (let currentPosition =
            (case lastValue s of Some v \<Rightarrow> v | None \<Rightarrow> num (index (navigationState p)));
          nextPosition = js_sub currentPosition (js_div (dx g) (width (layout p)));
          s1 = (if isMoving s = None then s\<lparr>isMoving := Some (isMovingHorzontally g)\<rparr>
                else s)
      in if isMoving s1 = Some True \<and> isIndexInRange p nextPosition
         then offset_setValue nextPosition s1
         else s1)"

definition finishGesture :: "string \<Rightarrow> props \<Rightarrow> gestureState \<Rightarrow> state \<Rightarrow> state" where
  "finishGesture os p g s =
     (let currentIndex = index (navigationState p);
          currentValue = lastOffset s;
          s1 = (if js_neq currentValue (num currentIndex)
                then (if isMoving s = Some True \<and> \<not> isReverseDirection s g
                      then jumpToIndex (getNextIndex os p g) s
                      else jumpToIndex (num currentIndex) s)
                else s)
      in s1\<lparr>lastValue := None, isMoving := None\<rparr>)"

text \<open>A drag: the move samples of one gesture, delivered in order (line 81).\<close>

fun respondToGestures :: "props \<Rightarrow> gestureState list \<Rightarrow> state \<Rightarrow> state" where
  "respondToGestures p [] s = s"
| "respondToGestures p (g # gs) s = respondToGestures p gs (respondToGesture p g s)"

section \<open>The velocity test in the words of the specification\<close>

text \<open>
  The specification describes the platform normalisation as a division of the raw velocity
  by 1,000,000 before the comparison with \<^verbatim>\<open>swipeVelocityThreshold\<close>, and names a function
  \<^verbatim>\<open>normalizeVelocity(vx, platform)\<close> for it. The two definitions below follow those words;
  they are compared with \<open>getNextIndex\<close>, which is the code.
\<close>

definition normalizeVelocity :: "string \<Rightarrow> jsnum \<Rightarrow> jsnum" where
  "normalizeVelocity os v = (if os = ''android'' then js_div v (Fin 1000000) else v)"

definition getNextIndex_spec :: "string \<Rightarrow> props \<Rightarrow> gestureState \<Rightarrow> jsnum" where
  "getNextIndex_spec os p g =
     (let i = index (navigationState p)
      in if js_gt (js_abs (dx g)) (swipeDistanceThreshold p) \<or>
            js_gt (js_abs (normalizeVelocity os (vx g))) (swipeVelocityThreshold p)
         then (let nextIndex = js_sub (num i) (js_div (dx g) (js_abs (dx g)))
               in if isIndexInRange p nextIndex then nextIndex else num i)
         else num i)"

section \<open>A pager with three routes\<close>

text \<open>
  Concrete inputs for the examples: the default props (lines 66 to 70) over three routes
  with the first one current and a viewport 300 wide, a configurator that asks for no
  animation, and the state in the middle of a leftward drag that has moved the offset
  from 0 to 1/2.
\<close>

definition example_props :: props where
  "example_props =
     \<lparr> navigationState = \<lparr> index = 0, routes = js_array [''first'', ''second'', ''third''] \<rparr>,
       layout = \<lparr> width = Fin 300, height = Fin 500 \<rparr>,
       configureTransition = Some defaultProps_configureTransition,
       swipeEnabled = None,
       swipeDistanceThreshold = Fin 120,
       swipeVelocityThreshold = Fin (1 / 4) \<rparr>"

definition instantTransition :: transitionConfigurator where
  "instantTransition = (\<lambda>_ _. None)"

definition example_dragging :: state where
  "example_dragging =
     \<lparr> lastOffset = Fin (1 / 2),
       lastValue = Some (Fin 0),
       isMoving = Some True,
       startDirection = Fin (- 12),
       offset_value = Fin (1 / 2),
       offset_animation = None,
       calls = [StopAnimation, SetValue (Fin (1 / 2))] \<rparr>"

section \<open>Rounding to binary64\<close>

lemma ulp_pos: "0 < ulp a"
  by (simp add: ulp_def)

lemma rne_of_int: "rne (of_int k) = k"
  by (simp add: rne_def)

lemma rne_ge: "of_int n \<le> m \<Longrightarrow> n \<le> rne m"
proof -
  assume "of_int n \<le> m"
  then have "n \<le> \<lfloor>m\<rfloor>" by (simp add: le_floor_iff)
  then show ?thesis by (simp add: rne_def Let_def)
qed

lemma rne_le: "m \<le> of_int n \<Longrightarrow> rne m \<le> n"
proof -
  assume le: "m \<le> of_int n"
  have f: "\<lfloor>m\<rfloor> \<le> n" using le by (simp add: floor_le_iff)
  show ?thesis
  proof (cases "m - of_int \<lfloor>m\<rfloor> < 1 / 2")
    case True
    with f show ?thesis by (simp add: rne_def Let_def)
  next
    case False
    then have "of_int \<lfloor>m\<rfloor> < m" by linarith
    with le have "of_int \<lfloor>m\<rfloor> < (of_int n :: real)" by linarith
    then have "\<lfloor>m\<rfloor> < n" by simp
    then show ?thesis by (simp add: rne_def Let_def)
  qed
qed

lemma rne_minus: "rne (- m) = - rne m"
proof (cases "m = of_int \<lfloor>m\<rfloor>")
  case True
  then obtain k where "m = of_int k" by metis
  then have "- m = of_int (- k)" by simp
  with \<open>m = of_int k\<close> show ?thesis by (simp only: rne_of_int)
next
  case False
  then have lt: "of_int \<lfloor>m\<rfloor> < m" by (metis of_int_floor_le order_less_le)
  have fl: "\<lfloor>- m\<rfloor> = - \<lfloor>m\<rfloor> - 1"
  proof (rule floor_unique)
    show "of_int (- \<lfloor>m\<rfloor> - 1) \<le> - m" using floor_correct [of m] by simp linarith
    show "- m < of_int (- \<lfloor>m\<rfloor> - 1) + 1" using lt by simp
  qed
  have par: "even (- \<lfloor>m\<rfloor> - 1) = odd \<lfloor>m\<rfloor>" by simp
  consider "m - of_int \<lfloor>m\<rfloor> < 1 / 2" | "1 / 2 < m - of_int \<lfloor>m\<rfloor>"
    | "m - of_int \<lfloor>m\<rfloor> = 1 / 2" by linarith
  then show ?thesis
  proof cases
    case 1
    then show ?thesis unfolding rne_def Let_def fl par by simp
  next
    case 2
    then show ?thesis unfolding rne_def Let_def fl par by simp
  next
    case 3
    then show ?thesis unfolding rne_def Let_def fl par by simp
  qed
qed

lemma floor_log2_bounds:
  assumes "0 < a"
  shows "2 powi \<lfloor>log 2 a\<rfloor> \<le> a" and "a < 2 powi (\<lfloor>log 2 a\<rfloor> + 1)"
proof -
  have "2 powr real_of_int \<lfloor>log 2 a\<rfloor> \<le> a \<and> a < 2 powr real_of_int (\<lfloor>log 2 a\<rfloor> + 1)"
    using floor_log_eq_powr_iff [of a 2 "\<lfloor>log 2 a\<rfloor>"] assms by simp
  moreover have "2 powr real_of_int k = 2 powi k" for k
    by (rule powr_real_of_int') simp_all
  ultimately show "2 powi \<lfloor>log 2 a\<rfloor> \<le> a" and "a < 2 powi (\<lfloor>log 2 a\<rfloor> + 1)"
    by metis+
qed

lemma binade_upper: "0 < a \<Longrightarrow> a < 2 powi (binade a + 1)"
proof -
  assume a: "0 < a"
  have "a < 2 powi (\<lfloor>log 2 a\<rfloor> + 1)" by (rule floor_log2_bounds(2) [OF a])
  also have "\<dots> \<le> 2 powi (binade a + 1)"
    by (rule power_int_increasing) (simp_all add: binade_def)
  finally show ?thesis .
qed

lemma binade_lower: "0 < a \<Longrightarrow> - 1022 < binade a \<Longrightarrow> 2 powi binade a \<le> a"
  using floor_log2_bounds(1) [of a] by (simp add: binade_def max_def split: if_splits)

lemma binade_mono: "0 < a \<Longrightarrow> a \<le> b \<Longrightarrow> binade a \<le> binade b"
  unfolding binade_def
  by (intro max.mono floor_mono) (simp_all)


lemma round64_minus: "round64 (- x) = js_neg (round64 x)"
  by (simp add: round64_def Let_def rne_minus)

text \<open>The value a positive number is rounded to, before the overflow test.\<close>

lemma round64_pos:
  assumes "0 < x"
  shows "round64 x =
     (if 2 powi 1024 \<le> of_int (rne (x / ulp x)) * ulp x then PosInf
      else Fin (of_int (rne (x / ulp x)) * ulp x))"
    and "0 \<le> of_int (rne (x / ulp x)) * ulp x"
proof -
  have "0 \<le> rne (x / ulp x)"
    by (rule rne_ge) (use assms ulp_pos [of x] in simp)
  then show nn: "0 \<le> of_int (rne (x / ulp x)) * ulp x"
    using ulp_pos [of x] by simp
  then show "round64 x =
     (if 2 powi 1024 \<le> of_int (rne (x / ulp x)) * ulp x then PosInf
      else Fin (of_int (rne (x / ulp x)) * ulp x))"
    using assms by (simp add: round64_def Let_def abs_of_nonneg)
qed

lemma fixed_point_pos:
  assumes "0 < c" and "round64 c = Fin c"
  shows "c = of_int (rne (c / ulp c)) * ulp c" and "c < 2 powi 1024"
  using assms round64_pos [OF assms(1)] by (auto split: if_splits)

lemma rounded_ge_binade:
  assumes "0 < x" and "- 1022 < binade x"
  shows "2 powi binade x \<le> of_int (rne (x / ulp x)) * ulp x"
proof -
  have "2 powi binade x \<le> x" by (rule binade_lower [OF assms])
  then have "2 powi binade x / ulp x \<le> x / ulp x"
    using ulp_pos [of x] by (simp add: divide_right_mono)
  moreover have "2 powi binade x / ulp x = (2 :: real) powi 52"
    by (simp add: ulp_def power_int_diff)
  ultimately have "of_int (2 ^ 52) \<le> x / ulp x" by simp
  then have "2 ^ 52 \<le> rne (x / ulp x)" by (rule rne_ge)
  then have "(of_int (2 ^ 52) :: real) \<le> of_int (rne (x / ulp x))"
    by (simp only: of_int_le_iff)
  then have "of_int (2 ^ 52) * ulp x \<le> of_int (rne (x / ulp x)) * ulp x"
    using ulp_pos [of x] by (simp only: mult_le_cancel_right_pos)
  moreover have "of_int (2 ^ 52) * ulp x = 2 powi binade x"
    by (simp add: ulp_def power_int_diff)
  ultimately show ?thesis by simp
qed

lemma rounded_le_binade:
  assumes "0 < x"
  shows "of_int (rne (x / ulp x)) * ulp x \<le> 2 powi (binade x + 1)"
proof -
  have "x < 2 powi (binade x + 1)" by (rule binade_upper [OF assms])
  then have "x / ulp x \<le> 2 powi (binade x + 1) / ulp x"
    using ulp_pos [of x] by (simp add: divide_right_mono)
  moreover have "2 powi (binade x + 1) / ulp x = (2 :: real) powi 53"
    by (simp add: ulp_def power_int_diff power_int_add)
  ultimately have "x / ulp x \<le> of_int (2 ^ 53)" by simp
  then have "rne (x / ulp x) \<le> 2 ^ 53" by (rule rne_le)
  then have "(of_int (rne (x / ulp x)) :: real) \<le> of_int (2 ^ 53)"
    by (simp only: of_int_le_iff)
  then have "of_int (rne (x / ulp x)) * ulp x \<le> of_int (2 ^ 53) * ulp x"
    using ulp_pos [of x] by (simp only: mult_le_cancel_right_pos)
  moreover have "of_int (2 ^ 53) * ulp x = 2 powi (binade x + 1)"
    by (simp add: ulp_def power_int_diff power_int_add)
  ultimately show ?thesis by simp
qed

lemma round64_above:
  assumes "0 < c" and "c \<le> x" and "round64 c = Fin c"
  shows "round64 x = PosInf \<or> (\<exists>v. round64 x = Fin v \<and> c \<le> v)"
proof -
  have x: "0 < x" using assms by simp
  have "c \<le> of_int (rne (x / ulp x)) * ulp x"
  proof (cases "binade x = binade c")
    case True
    then have u: "ulp x = ulp c" by (simp add: ulp_def)
    have "c / ulp c = of_int (rne (c / ulp c))"
      using fixed_point_pos(1) [OF assms(1,3)] ulp_pos [of c] by (simp add: field_simps)
    moreover have "c / ulp c \<le> x / ulp c"
      using assms(2) ulp_pos [of c] by (simp add: divide_right_mono)
    ultimately have "of_int (rne (c / ulp c)) \<le> x / ulp c" by simp
    then have "rne (c / ulp c) \<le> rne (x / ulp c)" by (rule rne_ge)
    then have "(of_int (rne (c / ulp c)) :: real) \<le> of_int (rne (x / ulp c))"
      by (simp only: of_int_le_iff)
    then have "of_int (rne (c / ulp c)) * ulp c \<le> of_int (rne (x / ulp c)) * ulp c"
      using ulp_pos [of c] by (simp only: mult_le_cancel_right_pos)
    with fixed_point_pos(1) [OF assms(1,3)] u show ?thesis by simp
  next
    case False
    with binade_mono [OF assms(1,2)] have lt: "binade c < binade x" by simp
    then have "- 1022 < binade x" by (simp add: binade_def)
    then have "2 powi binade x \<le> of_int (rne (x / ulp x)) * ulp x"
      by (rule rounded_ge_binade [OF x])
    moreover have "(2 :: real) powi (binade c + 1) \<le> 2 powi binade x"
      by (rule power_int_increasing) (use lt in simp_all)
    moreover have "c < 2 powi (binade c + 1)" by (rule binade_upper [OF assms(1)])
    ultimately show ?thesis by linarith
  qed
  then show ?thesis
    by (simp add: round64_pos(1) [OF x])
qed

lemma round64_below:
  assumes "0 < x" and "x \<le> c" and "round64 c = Fin c"
  shows "\<exists>v. round64 x = Fin v \<and> 0 \<le> v \<and> v \<le> c"
proof -
  have c: "0 < c" using assms by simp
  have le: "of_int (rne (x / ulp x)) * ulp x \<le> c"
  proof (cases "binade x = binade c")
    case True
    then have u: "ulp x = ulp c" by (simp add: ulp_def)
    have "c / ulp c = of_int (rne (c / ulp c))"
      using fixed_point_pos(1) [OF c assms(3)] ulp_pos [of c] by (simp add: field_simps)
    moreover have "x / ulp c \<le> c / ulp c"
      using assms(2) ulp_pos [of c] by (simp add: divide_right_mono)
    ultimately have "x / ulp c \<le> of_int (rne (c / ulp c))" by simp
    then have "rne (x / ulp c) \<le> rne (c / ulp c)" by (rule rne_le)
    then have "(of_int (rne (x / ulp c)) :: real) \<le> of_int (rne (c / ulp c))"
      by (simp only: of_int_le_iff)
    then have "of_int (rne (x / ulp c)) * ulp c \<le> of_int (rne (c / ulp c)) * ulp c"
      using ulp_pos [of c] by (simp only: mult_le_cancel_right_pos)
    with fixed_point_pos(1) [OF c assms(3)] u show ?thesis by simp
  next
    case False
    with binade_mono [OF assms(1,2)] have lt: "binade x < binade c" by simp
    then have "- 1022 < binade c" by (simp add: binade_def)
    then have "2 powi binade c \<le> c" by (rule binade_lower [OF c])
    moreover have "(2 :: real) powi (binade x + 1) \<le> 2 powi binade c"
      by (rule power_int_increasing) (use lt in simp_all)
    moreover note rounded_le_binade [OF assms(1)]
    ultimately show ?thesis by linarith
  qed
  with fixed_point_pos(2) [OF c assms(3)]
  have "\<not> 2 powi 1024 \<le> of_int (rne (x / ulp x)) * ulp x" by linarith
  with le round64_pos [OF assms(1)] show ?thesis by simp
qed

lemma round64_overflow:
  assumes "2 powi 1024 \<le> x"
  shows "round64 x = PosInf"
proof -
  have x: "0 < x"
    using assms zero_less_power_int [of "2 :: real" 1024] by linarith
  have big: "(2 :: real) powi 1024 < 2 powi (binade x + 1)"
    using assms binade_upper [OF x] by linarith
  have b: "1024 \<le> binade x"
  proof (rule ccontr)
    assume "\<not> 1024 \<le> binade x"
    then have "(2 :: real) powi (binade x + 1) \<le> 2 powi 1024"
      by (intro power_int_increasing) simp_all
    with big show False by linarith
  qed
  then have "2 powi binade x \<le> of_int (rne (x / ulp x)) * ulp x"
    by (intro rounded_ge_binade [OF x]) simp
  moreover have "(2 :: real) powi 1024 \<le> 2 powi binade x"
    by (rule power_int_increasing) (use b in simp_all)
  ultimately show ?thesis
    by (simp add: round64_pos(1) [OF x] del: power_int_numeral)
qed


lemma round64_dyadic_pos:
  assumes "0 < k" and "k < 2 ^ 53" and "- 1074 \<le> j" and "j \<le> 971"
  shows "round64 (of_int k * 2 powi j) = Fin (of_int k * 2 powi j)"
proof -
  let ?c = "of_int k * (2 :: real) powi j"
  have c: "0 < ?c" using assms(1) by simp
  have "(of_int k :: real) < of_int (2 ^ 53)" using assms(2) by (simp only: of_int_less_iff)
  then have "?c < of_int (2 ^ 53) * 2 powi j"
    by (simp only: mult_less_cancel_right_pos zero_less_power_int zero_less_numeral)
  also have "\<dots> = 2 powi (j + 53)" by (simp add: power_int_add)
  finally have up: "?c < 2 powi (j + 53)" .
  have "\<lfloor>log 2 ?c\<rfloor> < j + 53"
  proof (rule ccontr)
    assume "\<not> \<lfloor>log 2 ?c\<rfloor> < j + 53"
    then have "(2 :: real) powi (j + 53) \<le> 2 powi \<lfloor>log 2 ?c\<rfloor>"
      by (intro power_int_increasing) simp_all
    with floor_log2_bounds(1) [OF c] up show False by linarith
  qed
  with assms(3) have b: "binade ?c \<le> j + 52" by (simp add: binade_def)
  define d where "d = nat (j + 52 - binade ?c)"
  have u: "ulp ?c = 2 powi (j - int d)" using b by (simp add: ulp_def d_def)
  have "?c / ulp ?c = of_int k * (2 powi j / 2 powi (j - int d))" by (simp add: u)
  also have "2 powi j / 2 powi (j - int d) = (2 :: real) ^ d"
    by (simp add: power_int_diff)
  finally have q: "?c / ulp ?c = of_int (k * 2 ^ d)" by simp
  have "of_int (rne (?c / ulp ?c)) * ulp ?c = of_int (k * 2 ^ d) * ulp ?c"
    by (simp only: q rne_of_int)
  also have "\<dots> = ?c / ulp ?c * ulp ?c" by (simp only: q)
  also have "\<dots> = ?c" using ulp_pos [of ?c] by simp
  finally have v: "of_int (rne (?c / ulp ?c)) * ulp ?c = ?c" .
  have "(2 :: real) powi (j + 53) \<le> 2 powi 1024"
    by (rule power_int_increasing) (use assms(4) in simp_all)
  with up have "\<not> 2 powi 1024 \<le> ?c" by linarith
  with round64_pos(1) [OF c] v show ?thesis by simp
qed

lemma round64_dyadic:
  assumes "\<bar>k\<bar> < 2 ^ 53" and "- 1074 \<le> j" and "j \<le> 971"
  shows "round64 (of_int k * 2 powi j) = Fin (of_int k * 2 powi j)"
proof -
  consider "k = 0" | "0 < k" | "k < 0" by linarith
  then show ?thesis
  proof cases
    case 1
    then show ?thesis by (simp add: round64_def)
  next
    case 2
    with assms show ?thesis by (intro round64_dyadic_pos) simp_all
  next
    case 3
    with assms have "round64 (of_int (- k) * 2 powi j) = Fin (of_int (- k) * 2 powi j)"
      by (intro round64_dyadic_pos) simp_all
    then have "round64 (- (of_int k * 2 powi j)) = Fin (- (of_int k * 2 powi j))"
      by simp
    then have "js_neg (round64 (of_int k * 2 powi j)) = Fin (- (of_int k * 2 powi j))"
      by (simp only: round64_minus)
    then show ?thesis
      by (cases "round64 (of_int k * 2 powi j)") simp_all
  qed
qed

lemma round64_int: "\<bar>k\<bar> < 2 ^ 53 \<Longrightarrow> round64 (of_int k) = Fin (of_int k)"
  using round64_dyadic [of k 0] by simp

lemma round64_half:
  assumes "1 \<le> y"
  shows "round64 y = PosInf \<or> (\<exists>v. round64 y = Fin v \<and> y / 2 < v)"
proof -
  have y: "0 < y" using assms by simp
  have b: "0 \<le> binade y"
  proof (rule ccontr)
    assume "\<not> 0 \<le> binade y"
    then have "(2 :: real) powi (binade y + 1) \<le> 2 powi 0"
      by (intro power_int_increasing) simp_all
    with binade_upper [OF y] assms show False by simp
  qed
  then have "2 powi binade y \<le> of_int (rne (y / ulp y)) * ulp y"
    by (intro rounded_ge_binade [OF y]) simp
  moreover have "y < 2 * 2 powi binade y"
    using binade_upper [OF y] by (simp add: power_int_add)
  ultimately have "y / 2 < of_int (rne (y / ulp y)) * ulp y" by linarith
  then show ?thesis by (simp add: round64_pos(1) [OF y])
qed


lemma round64_nonneg:
  assumes "0 \<le> x"
  shows "round64 x = PosInf \<or> (\<exists>v. round64 x = Fin v \<and> 0 \<le> v)"
proof (cases "x = 0")
  case True
  then show ?thesis by (simp add: round64_def)
next
  case False
  with assms have "0 < x" by simp
  from round64_pos [OF this] show ?thesis by simp
qed

lemma js_neg_eq_Fin: "js_neg a = Fin v \<longleftrightarrow> a = Fin (- v)"
  by (cases a) auto

lemma round64_ge:
  assumes "round64 c = Fin c" and "c \<le> x"
  shows "round64 x = PosInf \<or> (\<exists>v. round64 x = Fin v \<and> c \<le> v)"
proof -
  consider "0 < c" | "c \<le> 0" "0 \<le> x" | "c < 0" "x < 0" using assms(2) by linarith
  then show ?thesis
  proof cases
    case 1
    then show ?thesis by (rule round64_above [OF _ assms(2,1)])
  next
    case 2
    with round64_nonneg [of x] show ?thesis by force
  next
    case 3
    have "round64 (- c) = Fin (- c)" by (simp add: round64_minus assms(1))
    with 3 assms(2) have "\<exists>v. round64 (- x) = Fin v \<and> 0 \<le> v \<and> v \<le> - c"
      by (intro round64_below) simp_all
    then obtain v where "round64 (- x) = Fin v" and "v \<le> - c" by blast
    then have "round64 x = Fin (- v)" and "c \<le> - v"
      by (simp_all add: round64_minus js_neg_eq_Fin)
    then show ?thesis by simp
  qed
qed

lemma round64_le:
  assumes "round64 c = Fin c" and "x \<le> c"
  shows "round64 x = NegInf \<or> (\<exists>v. round64 x = Fin v \<and> v \<le> c)"
proof -
  have "round64 (- c) = Fin (- c)" by (simp add: round64_minus assms(1))
  from round64_ge [OF this, of "- x"] assms(2)
  have "round64 (- x) = PosInf \<or> (\<exists>v. round64 (- x) = Fin v \<and> - c \<le> v)" by simp
  then show ?thesis
  proof
    assume "round64 (- x) = PosInf"
    then show ?thesis by (cases "round64 x") (simp_all add: round64_minus)
  next
    assume "\<exists>v. round64 (- x) = Fin v \<and> - c \<le> v"
    then obtain v where "round64 (- x) = Fin v" and "- c \<le> v" by blast
    then have "round64 x = Fin (- v)" and "- v \<le> c"
      by (simp_all add: round64_minus js_neg_eq_Fin)
    then show ?thesis by simp
  qed
qed

lemma round64_zero: "round64 0 = Fin 0"
  by (simp add: round64_def)

text \<open>Some doubles.\<close>

lemma round64_values:
  "round64 1 = Fin 1" "round64 (- 1) = Fin (- 1)" "round64 2 = Fin 2" "round64 3 = Fin 3"
  "round64 (1 / 2) = Fin (1 / 2)" "round64 (- (1 / 2)) = Fin (- (1 / 2))"
  "round64 (5 / 2) = Fin (5 / 2)"
  "round64 (1 / 16) = Fin (1 / 16)" "round64 (- (1 / 16)) = Fin (- (1 / 16))"
  using round64_int [of 1] round64_int [of "- 1"] round64_int [of 2] round64_int [of 3]
     round64_dyadic [of 1 "- 1"] round64_dyadic [of "- 1" "- 1"] round64_dyadic [of 5 "- 1"]
     round64_dyadic [of 1 "- 4"] round64_dyadic [of "- 1" "- 4"]
  by simp_all

section \<open>Arrays\<close>

lemma array_length_bound: "array_length a < 2 ^ 32"
  using elements [of a] by (simp add: array_length_def)

lemma array_length_js_array: "length xs < 2 ^ 32 \<Longrightarrow> array_length (js_array xs) = length xs"
  by (simp add: array_length_def js_array_inverse)

lemma three_routes: "array_length (js_array [''first'', ''second'', ''third'']) = 3"
  by (simp add: array_length_js_array)


section \<open>Comparisons with a finite number\<close>

lemma js_ge_Fin: "js_ge a (Fin y) = (a = PosInf \<or> (\<exists>x. a = Fin x \<and> y \<le> x))"
  by (cases a) (auto simp: js_ge_def js_le_def)

lemma js_le_Fin: "js_le a (Fin y) = (a = NegInf \<or> (\<exists>x. a = Fin x \<and> x \<le> y))"
  by (cases a) (auto simp: js_le_def)

lemma isIndexInRange_iff:
  "isIndexInRange p i =
     (\<exists>x. i = Fin x \<and> 0 \<le> x \<and> x \<le> real (array_length (routes (navigationState p))) - 1)"
  by (cases i) (auto simp: isIndexInRange_def js_ge_Fin js_le_Fin num_def)

text \<open>
  An integer rounds into the range of the routes exactly when it is in it, and is then
  not changed by the rounding: the routes are fewer than \<open>2^32\<close>.
\<close>

lemma round64_index:
  fixes m :: int
  shows "isIndexInRange p (round64 (of_int m)) =
           (0 \<le> m \<and> m \<le> int (array_length (routes (navigationState p))) - 1)"
    and "0 \<le> m \<and> m \<le> int (array_length (routes (navigationState p))) - 1
           \<Longrightarrow> round64 (of_int m) = Fin (of_int m)"
proof -
  let ?n = "array_length (routes (navigationState p))"
  have n: "int ?n < 2 ^ 32"
    using array_length_bound [of "routes (navigationState p)"]
    by (metis of_nat_less_iff of_nat_numeral of_nat_power)
  have inside: "round64 (of_int m) = Fin (of_int m)" if "0 \<le> m \<and> m \<le> int ?n - 1"
    using that n by (intro round64_int) simp
  then show "0 \<le> m \<and> m \<le> int ?n - 1 \<Longrightarrow> round64 (of_int m) = Fin (of_int m)" .
  consider "0 \<le> m \<and> m \<le> int ?n - 1" | "m < 0" | "int ?n \<le> m" by linarith
  then show "isIndexInRange p (round64 (of_int m)) = (0 \<le> m \<and> m \<le> int ?n - 1)"
  proof cases
    case 1
    with inside show ?thesis by (simp add: isIndexInRange_iff)
  next
    case 2
    then have "real_of_int m \<le> - 1" by linarith
    from round64_le [OF round64_values(2) this] 2 show ?thesis
      by (auto simp: isIndexInRange_iff)
  next
    case 3
    have "round64 (of_int (int ?n)) = Fin (of_int (int ?n))"
      using n by (intro round64_int) simp
    moreover from 3 have "real_of_int (int ?n) \<le> of_int m" by (simp only: of_int_le_iff)
    ultimately have "round64 (of_int m) = PosInf \<or>
        (\<exists>v. round64 (of_int m) = Fin v \<and> real_of_int (int ?n) \<le> v)"
      by (rule round64_ge)
    with 3 show ?thesis by (auto simp: isIndexInRange_iff)
  qed
qed

lemma js_abs_round64: "js_abs (round64 x) = round64 \<bar>x\<bar>"
proof (cases "0 \<le> x")
  case True
  with round64_nonneg [of x] show ?thesis by auto
next
  case False
  then have "0 \<le> - x" by simp
  from round64_nonneg [OF this] have "js_abs (round64 (- x)) = round64 (- x)" by auto
  moreover have "js_abs (js_neg a) = js_abs a" for a by (cases a) simp_all
  ultimately show ?thesis using False by (simp add: round64_minus)
qed

lemma js_abs_mul3: "js_abs (js_mul a (Fin 3)) = js_mul (Fin 3) (js_abs a)"
  by (cases a) (simp_all add: js_abs_round64 abs_mult mult.commute)

lemmas example_defs =
  example_props_def example_dragging_def respondToGesture_def isMovingHorzontally_def
  isIndexInRange_def offset_setValue_def trackOffset_def num_def js_gt_def js_ge_def js_le_def
  js_neq_def Let_def three_routes round64_zero round64_values

text \<open>
  The example state is the one the pager is in after it has claimed a leftward gesture on
  the first route, has been granted it, and has received a move sample 150 to the left.
\<close>

lemma example_dragging_reached:
  "example_dragging =
     respondToGesture example_props
       \<lparr>dx = Fin (- 150), dy = Fin 0, vx = Fin (- 1 / 2), vy = Fin 0\<rparr>
       (startGesture
         (snd (canMoveScreen example_props
                 \<lparr>dx = Fin (- 12), dy = Fin 0, vx = Fin (- 1 / 2), vy = Fin 0\<rparr>
                 (componentWillMount example_props (Fin 0)))))"
  by (simp add: example_defs startGesture_def canMoveScreen_def componentWillMount_def
      offset_stopAnimation_def DEAD_ZONE_def)

section \<open>The drag tracker\<close>

lemma respondToGesture_out_of_range:
  assumes "\<not> isIndexInRange p
     (js_sub (case lastValue s of Some v \<Rightarrow> v | None \<Rightarrow> num (index (navigationState p)))
        (js_div (dx g) (width (layout p))))"
  shows "calls (respondToGesture p g s) = calls s \<and>
         offset_value (respondToGesture p g s) = offset_value s"
  using assms by (simp add: respondToGesture_def Let_def)

lemma respondToGesture_calls:
  "\<exists>ws. calls (respondToGesture p g s) = calls s @ map SetValue ws \<and>
        (\<forall>v\<in>set ws. isIndexInRange p v) \<and>
        offset_value (respondToGesture p g s) = last (offset_value s # ws)"
proof -
  let ?next = "js_sub (case lastValue s of Some v \<Rightarrow> v
                      | None \<Rightarrow> num (index (navigationState p)))
                 (js_div (dx g) (width (layout p)))"
  show ?thesis
  proof (cases "isMoving (respondToGesture p g s) = Some True \<and> isIndexInRange p ?next")
    case True
    then show ?thesis
      by (intro exI [of _ "[?next]"])
         (auto simp: respondToGesture_def Let_def offset_setValue_def trackOffset_def
            split: if_splits)
  next
    case False
    then show ?thesis
      by (intro exI [of _ "[]"])
         (auto simp: respondToGesture_def Let_def offset_setValue_def trackOffset_def
            split: if_splits)
  qed
qed

lemma respondToGestures_calls:
  "\<exists>ws. calls (respondToGestures p gs s) = calls s @ map SetValue ws \<and>
        (\<forall>v\<in>set ws. isIndexInRange p v) \<and>
        offset_value (respondToGestures p gs s) = last (offset_value s # ws)"
proof (induction gs arbitrary: s)
  case Nil
  show ?case by (intro exI [of _ "[]"]) simp
next
  case (Cons g gs)
  let ?s1 = "respondToGesture p g s"
  obtain ws1 where 1: "calls ?s1 = calls s @ map SetValue ws1"
      "\<forall>v\<in>set ws1. isIndexInRange p v"
      "offset_value ?s1 = last (offset_value s # ws1)"
    using respondToGesture_calls by blast
  obtain ws2 where 2: "calls (respondToGestures p gs ?s1) = calls ?s1 @ map SetValue ws2"
      "\<forall>v\<in>set ws2. isIndexInRange p v"
      "offset_value (respondToGestures p gs ?s1) = last (offset_value ?s1 # ws2)"
    using Cons.IH by blast
  from 1 2 show ?case
    by (intro exI [of _ "ws1 @ ws2"]) (auto simp: last_append)
qed

text \<open>
  Claim C1. Whatever move samples a drag delivers, every value the drag tracker writes
  into the shared offset is a finite number between 0 and the number of routes minus one,
  the tracker does nothing but such writes, and the offset ends at the last value written
  (at its old value when nothing was written). A sample whose candidate
  \<^verbatim>\<open>currentPosition - dx / width\<close> is outside that range writes nothing and leaves the
  offset as it was.
\<close>

theorem drag_writes_in_range:
  "(\<exists>ws. calls (respondToGestures p gs s) = calls s @ map SetValue ws \<and>
      (\<forall>v\<in>set ws. \<exists>x. v = Fin x \<and> 0 \<le> x \<and>
          x \<le> real (array_length (routes (navigationState p))) - 1) \<and>
      offset_value (respondToGestures p gs s) = last (offset_value s # ws)) \<and>
   (\<not> (\<exists>x. js_sub (case lastValue s of Some v \<Rightarrow> v
                    | None \<Rightarrow> num (index (navigationState p)))
               (js_div (dx g) (width (layout p))) = Fin x \<and> 0 \<le> x \<and>
             x \<le> real (array_length (routes (navigationState p))) - 1)
    \<longrightarrow> calls (respondToGesture p g s) = calls s \<and>
        offset_value (respondToGesture p g s) = offset_value s)"
  using respondToGestures_calls [of p gs s] respondToGesture_out_of_range [of p s g]
  by (simp add: isIndexInRange_iff)

text \<open>
  On the example drag, a sample 150 to the left writes 1/2, and the next sample, 30 to the
  right of the start, would give -1/10 and writes nothing.
\<close>

theorem drag_writes_in_range_witness:
  "(\<exists>ws. calls (respondToGestures example_props
            [\<lparr>dx = Fin (- 150), dy = Fin 0, vx = Fin (- 1 / 2), vy = Fin 0\<rparr>,
             \<lparr>dx = Fin 30, dy = Fin 0, vx = Fin (1 / 2), vy = Fin 0\<rparr>] example_dragging)
          = calls example_dragging @ map SetValue ws \<and>
        ws = [Fin (1 / 2)] \<and>
        (\<forall>v\<in>set ws. \<exists>x. v = Fin x \<and> 0 \<le> x \<and>
            x \<le> real (array_length (routes (navigationState example_props))) - 1)) \<and>
   offset_value (respondToGestures example_props
            [\<lparr>dx = Fin (- 150), dy = Fin 0, vx = Fin (- 1 / 2), vy = Fin 0\<rparr>,
             \<lparr>dx = Fin 30, dy = Fin 0, vx = Fin (1 / 2), vy = Fin 0\<rparr>] example_dragging)
     = Fin (1 / 2) \<and>
   calls (respondToGesture example_props
            \<lparr>dx = Fin 30, dy = Fin 0, vx = Fin (1 / 2), vy = Fin 0\<rparr> example_dragging)
     = calls example_dragging"
proof -
  let ?g1 = "\<lparr>dx = Fin (- 150), dy = Fin 0, vx = Fin (- 1 / 2), vy = Fin 0\<rparr>"
  let ?g2 = "\<lparr>dx = Fin 30, dy = Fin 0, vx = Fin (1 / 2), vy = Fin 0\<rparr>"
  let ?r = "respondToGestures example_props [?g1, ?g2] example_dragging"
  have tenth: "\<not> isIndexInRange example_props
                   (js_sub (Fin 0) (js_div (Fin 30) (Fin 300)))"
  proof -
    have "round64 (1 / 10) = PosInf \<or> (\<exists>v. round64 (1 / 10) = Fin v \<and> 1 / 16 \<le> v)"
      by (rule round64_ge [OF round64_values(8)]) simp
    then show ?thesis
    proof
      assume "round64 (1 / 10) = PosInf"
      then show ?thesis by (simp add: isIndexInRange_iff)
    next
      assume "\<exists>v. round64 (1 / 10) = Fin v \<and> 1 / 16 \<le> v"
      then obtain v where v: "round64 (1 / 10) = Fin v" "1 / 16 \<le> v" by blast
      from v(2) have "- v \<le> - (1 / 16)" by simp
      from round64_le [OF round64_values(9) this] v(1) show ?thesis
        by (auto simp: isIndexInRange_iff)
    qed
  qed
  have first: "respondToGesture example_props ?g1 example_dragging
                 = example_dragging\<lparr>calls := calls example_dragging @ [SetValue (Fin (1 / 2))]\<rparr>"
    by (simp add: example_defs)
  have second: "calls (respondToGesture example_props ?g2 s) = calls s"
    if "lastValue s = Some (Fin 0)" for s
    using respondToGesture_out_of_range [of example_props s ?g2] tenth that
    by (simp add: example_props_def)
  have "lastValue (respondToGesture example_props ?g1 example_dragging) = Some (Fin 0)"
    by (subst first) (simp add: example_dragging_def)
  then have "calls ?r = calls (respondToGesture example_props ?g1 example_dragging)"
    using second by simp
  then have ev: "calls ?r = calls example_dragging @ map SetValue [Fin (1 / 2)]"
    by (subst (asm) first) simp
  have outside:
    "\<not> (\<exists>x. js_sub (case lastValue example_dragging of Some v \<Rightarrow> v
                    | None \<Rightarrow> num (index (navigationState example_props)))
               (js_div (dx ?g2) (width (layout example_props))) = Fin x \<and> 0 \<le> x \<and>
             x \<le> real (array_length (routes (navigationState example_props))) - 1)"
    using tenth by (simp add: isIndexInRange_iff example_props_def example_dragging_def)
  from drag_writes_in_range [of example_props "[?g1, ?g2]" example_dragging ?g2] outside
  obtain ws where ws: "calls ?r = calls example_dragging @ map SetValue ws"
    and rng: "\<forall>v\<in>set ws. \<exists>x. v = Fin x \<and> 0 \<le> x \<and>
            x \<le> real (array_length (routes (navigationState example_props))) - 1"
    and off: "offset_value ?r = last (offset_value example_dragging # ws)"
    and kept: "calls (respondToGesture example_props ?g2 example_dragging)
                 = calls example_dragging"
    by blast
  from ev ws have "map SetValue ws = map SetValue [Fin (1 / 2)]" by simp
  then have "ws = [Fin (1 / 2)]"
    by (auto simp: map_eq_Cons_conv)
  with ws rng off kept show ?thesis by auto
qed

section \<open>The commit resolver\<close>

lemma getNextIndex_Fin:
  assumes "dx g = Fin x"
  shows "getNextIndex os p g =
     (if (js_gt (js_abs (dx g)) (swipeDistanceThreshold p) \<or>
          js_gt (js_abs (vx g))
            (if os = ''android'' then js_div (swipeVelocityThreshold p) (Fin 1000000)
             else swipeVelocityThreshold p)) \<and>
         0 \<le> of_int (index (navigationState p)) - sgn x \<and>
         of_int (index (navigationState p)) - sgn x
           \<le> real (array_length (routes (navigationState p))) - 1
      then Fin (of_int (index (navigationState p)) - sgn x)
      else num (index (navigationState p)))"
proof -
  let ?i = "index (navigationState p)"
  let ?next = "js_sub (num ?i) (js_div (dx g) (js_abs (dx g)))"
  have target: "(isIndexInRange p ?next \<longrightarrow>
        0 \<le> of_int ?i - sgn x \<and>
        of_int ?i - sgn x \<le> real (array_length (routes (navigationState p))) - 1 \<and>
        ?next = Fin (of_int ?i - sgn x)) \<and>
      (\<not> isIndexInRange p ?next \<longrightarrow>
        (0 \<le> of_int ?i - sgn x \<and>
         of_int ?i - sgn x \<le> real (array_length (routes (navigationState p))) - 1
         \<longrightarrow> Fin (of_int ?i - sgn x) = num ?i))"
  proof -
    consider "x = 0" | "0 < x" | "x < 0" by linarith
    then show ?thesis
    proof cases
      case 1
      with assms show ?thesis by (simp add: isIndexInRange_iff num_def)
    next
      case 2
      with assms have "?next = round64 (of_int (?i - 1))"
        by (simp add: num_def round64_values)
      with 2 round64_index [where p = p and m = "?i - 1"] show ?thesis by auto
    next
      case 3
      with assms have "?next = round64 (of_int (?i + 1))"
        by (simp add: num_def round64_values)
      with 3 round64_index [where p = p and m = "?i + 1"] show ?thesis by auto
    qed
  qed
  then show ?thesis
    by (auto simp: getNextIndex_def Let_def)
qed

lemma finishGesture_calls:
  "calls (finishGesture os p g s) =
     (if js_neq (lastOffset s) (num (index (navigationState p)))
      then calls s @ [JumpToIndex
             (if isMoving s = Some True \<and> \<not> isReverseDirection s g
              then getNextIndex os p g else num (index (navigationState p)))]
      else calls s)"
  by (simp add: finishGesture_def Let_def jumpToIndex_def)

text \<open>
  Claim C2. A gesture is released while the cached offset differs from the current index,
  the gesture was classified as horizontal and its release velocity does not reverse the
  initiating direction; \<open>dx\<close> is a finite displacement \<open>x\<close>. Then the commit resolver makes
  exactly one request: for \<open>index - sgn x\<close> when \<open>|dx|\<close> exceeds the distance threshold or
  \<open>|vx|\<close> exceeds the velocity threshold of the platform and \<open>index - sgn x\<close> lies between 0
  and the number of routes minus one, and for \<open>index\<close> otherwise. With a distance threshold
  of 120, \<open>dx = -130\<close>, \<open>vx = 0\<close>, index 0 and three routes the request is for 1; at the
  last index every leftward release requests the last index again.
\<close>

theorem commit_resolver_target:
  assumes "js_neq (lastOffset s) (num (index (navigationState p)))"
    and "isMoving s = Some True"
    and "\<not> isReverseDirection s g"
    and "dx g = Fin x"
  shows "calls (finishGesture os p g s) = calls s @ [JumpToIndex
       (if (js_gt (js_abs (dx g)) (swipeDistanceThreshold p) \<or>
            js_gt (js_abs (vx g))
              (if os = ''android'' then js_div (swipeVelocityThreshold p) (Fin 1000000)
               else swipeVelocityThreshold p)) \<and>
           0 \<le> of_int (index (navigationState p)) - sgn x \<and>
           of_int (index (navigationState p)) - sgn x
             \<le> real (array_length (routes (navigationState p))) - 1
        then Fin (of_int (index (navigationState p)) - sgn x)
        else num (index (navigationState p)))] \<and>
     (swipeDistanceThreshold p = Fin 120 \<and> x = - 130 \<and> vx g = Fin 0 \<and>
      index (navigationState p) = 0 \<and> array_length (routes (navigationState p)) = 3
      \<longrightarrow> calls (finishGesture os p g s) = calls s @ [JumpToIndex (Fin 1)]) \<and>
     (index (navigationState p) = int (array_length (routes (navigationState p))) - 1 \<and> x < 0
      \<longrightarrow> calls (finishGesture os p g s)
            = calls s @ [JumpToIndex (num (index (navigationState p)))])"
proof -
  have main: "calls (finishGesture os p g s) = calls s @ [JumpToIndex (getNextIndex os p g)]"
    using assms(1-3) by (simp add: finishGesture_calls)
  have general: "calls (finishGesture os p g s) = calls s @ [JumpToIndex
       (if (js_gt (js_abs (dx g)) (swipeDistanceThreshold p) \<or>
            js_gt (js_abs (vx g))
              (if os = ''android'' then js_div (swipeVelocityThreshold p) (Fin 1000000)
               else swipeVelocityThreshold p)) \<and>
           0 \<le> of_int (index (navigationState p)) - sgn x \<and>
           of_int (index (navigationState p)) - sgn x
             \<le> real (array_length (routes (navigationState p))) - 1
        then Fin (of_int (index (navigationState p)) - sgn x)
        else num (index (navigationState p)))]"
    using main getNextIndex_Fin [OF assms(4)] by simp
  have threshold: "calls (finishGesture os p g s) = calls s @ [JumpToIndex (Fin 1)]"
    if "swipeDistanceThreshold p = Fin 120 \<and> x = - 130 \<and> vx g = Fin 0 \<and>
        index (navigationState p) = 0 \<and> array_length (routes (navigationState p)) = 3"
    using that assms(4) general by (simp add: js_gt_def)
  have edge: "calls (finishGesture os p g s)
            = calls s @ [JumpToIndex (num (index (navigationState p)))]"
    if "index (navigationState p) = int (array_length (routes (navigationState p))) - 1 \<and> x < 0"
    using that general by (simp add: num_def)
  from general threshold edge show ?thesis by blast
qed

text \<open>
  The threshold example of the specification on the example drag, and a fast leftward
  release on the last of the three routes.
\<close>

theorem commit_resolver_target_witness:
  "js_neq (lastOffset example_dragging) (num (index (navigationState example_props))) \<and>
   isMoving example_dragging = Some True \<and>
   \<not> isReverseDirection example_dragging
       \<lparr>dx = Fin (- 130), dy = Fin 0, vx = Fin 0, vy = Fin 0\<rparr> \<and>
   calls (finishGesture ''ios'' example_props
            \<lparr>dx = Fin (- 130), dy = Fin 0, vx = Fin 0, vy = Fin 0\<rparr> example_dragging)
     = calls example_dragging @ [JumpToIndex (Fin 1)] \<and>
   calls (finishGesture ''ios''
            (example_props\<lparr>navigationState :=
               \<lparr>index = 2, routes = js_array [''first'', ''second'', ''third'']\<rparr>\<rparr>)
            \<lparr>dx = Fin (- 900), dy = Fin 0, vx = Fin (- 5), vy = Fin 0\<rparr> example_dragging)
     = calls example_dragging @ [JumpToIndex (Fin 2)]"
proof -
  let ?g = "\<lparr>dx = Fin (- 130), dy = Fin 0, vx = Fin 0, vy = Fin 0\<rparr>"
  let ?last = "example_props\<lparr>navigationState :=
                 \<lparr>index = 2, routes = js_array [''first'', ''second'', ''third'']\<rparr>\<rparr>"
  let ?fast = "\<lparr>dx = Fin (- 900), dy = Fin 0, vx = Fin (- 5), vy = Fin 0\<rparr>"
  have h1: "js_neq (lastOffset example_dragging) (num (index (navigationState example_props)))"
    by (simp add: example_defs)
  have h2: "isMoving example_dragging = Some True"
    by (simp add: example_dragging_def)
  have h3: "\<not> isReverseDirection example_dragging ?g"
    by (simp add: isReverseDirection_def example_dragging_def js_gt_def)
  have h4: "dx ?g = Fin (- 130)" by simp
  have k1: "js_neq (lastOffset example_dragging) (num (index (navigationState ?last)))"
    by (simp add: example_defs)
  have k3: "\<not> isReverseDirection example_dragging ?fast"
    by (simp add: isReverseDirection_def example_dragging_def js_gt_def)
  have k4: "dx ?fast = Fin (- 900)" by simp
  have ex: "swipeDistanceThreshold example_props = Fin 120 \<and> (- 130 :: real) = - 130 \<and>
      vx ?g = Fin 0 \<and> index (navigationState example_props) = 0 \<and>
      array_length (routes (navigationState example_props)) = 3"
    by (simp add: example_props_def three_routes)
  have ed: "index (navigationState ?last) = int (array_length (routes (navigationState ?last))) - 1 \<and>
      (- 900 :: real) < 0"
    by (simp add: three_routes)
  have first: "calls (finishGesture ''ios'' example_props ?g example_dragging)
                 = calls example_dragging @ [JumpToIndex (Fin 1)]"
    using commit_resolver_target [OF h1 h2 h3 h4, of "''ios''"] ex by blast
  have "calls (finishGesture ''ios'' ?last ?fast example_dragging)
          = calls example_dragging @ [JumpToIndex (num (index (navigationState ?last)))]"
    using commit_resolver_target [OF k1 h2 k3 k4, of "''ios''"] ed by blast
  then have edge: "calls (finishGesture ''ios'' ?last ?fast example_dragging)
                = calls example_dragging @ [JumpToIndex (Fin 2)]"
    by (simp add: num_def)
  from h1 h2 h3 first edge show ?thesis by simp
qed

text \<open>
  A gesture that was claimed has recorded a direction that is not zero: the classifier
  stores \<open>dx\<close>, which is then at least 12 or at most -12.
\<close>

lemma canMoveScreen_fst:
  "fst (canMoveScreen p g s) =
     (swipeEnabled p \<noteq> Some False \<and> isMovingHorzontally g \<and>
      ((js_ge (dx g) DEAD_ZONE \<and> js_ge (num (index (navigationState p))) (Fin 0)) \<or>
       (js_le (dx g) (js_neg DEAD_ZONE) \<and>
        js_le (num (index (navigationState p)))
          (num (int (array_length (routes (navigationState p))) - 1)))))"
  by (simp add: canMoveScreen_def Let_def)

lemma canMoveScreen_snd:
  "snd (canMoveScreen p g s) =
     (if fst (canMoveScreen p g s) then s\<lparr>startDirection := dx g\<rparr> else s)"
  by (auto simp: canMoveScreen_def Let_def)

lemma canMoveScreen_startDirection:
  assumes "fst (canMoveScreen p g s)"
  shows "startDirection (snd (canMoveScreen p g s)) = dx g \<and>
         (js_lt (dx g) (Fin 0) \<or> js_gt (dx g) (Fin 0))"
  using assms
  by (cases "dx g")
     (auto simp: canMoveScreen_snd canMoveScreen_fst DEAD_ZONE_def js_ge_Fin js_le_Fin js_gt_def)







text \<open>
  Claim C7. When a gesture ends while the cached offset equals the current index, the
  commit resolver makes no call at all, whatever the release sample is: \<^verbatim>\<open>jumpToIndex\<close> is
  not invoked.
\<close>

theorem tap_requests_nothing:
  "lastOffset s = num (index (navigationState p)) \<Longrightarrow>
   calls (finishGesture os p g s) = calls s"
  by (simp add: finishGesture_calls js_neq_def num_def)

text \<open>A tap on the freshly mounted pager: no displacement, no velocity, no request.\<close>

theorem tap_requests_nothing_witness:
  "lastOffset (componentWillMount example_props (Fin 0))
     = num (index (navigationState example_props)) \<and>
   calls (finishGesture ''ios'' example_props
            \<lparr>dx = Fin 0, dy = Fin 0, vx = Fin 0, vy = Fin 0\<rparr>
            (componentWillMount example_props (Fin 0))) = []"
proof -
  have h: "lastOffset (componentWillMount example_props (Fin 0))
             = num (index (navigationState example_props))"
    by (simp add: componentWillMount_def)
  from tap_requests_nothing [OF h, of "''ios''" "\<lparr>dx = Fin 0, dy = Fin 0, vx = Fin 0, vy = Fin 0\<rparr>"] h
  show ?thesis by (simp add: componentWillMount_def)
qed

text \<open>
  Claim C8, as the code has it. On every gesture end and on every branch of the commit
  resolver \<^verbatim>\<open>_lastValue\<close> and \<^verbatim>\<open>_isMoving\<close> are reset to \<^verbatim>\<open>null\<close>. \<^verbatim>\<open>_startDirection\<close> is not
  touched: it keeps the direction recorded by the last claim until the next claim, on a
  sample \<open>g'\<close> under props \<open>p'\<close>, overwrites it with the displacement of \<open>g'\<close>.
\<close>

theorem finishGesture_session_reset:
  "lastValue (finishGesture os p g s) = None \<and>
   isMoving (finishGesture os p g s) = None \<and>
   startDirection (finishGesture os p g s) = startDirection s \<and>
   (fst (canMoveScreen p' g' (finishGesture os p g s))
    \<longrightarrow> startDirection (snd (canMoveScreen p' g' (finishGesture os p g s))) = dx g')"
  using canMoveScreen_startDirection [of p' g' "finishGesture os p g s"]
  by (simp add: finishGesture_def Let_def jumpToIndex_def)

theorem finishGesture_session_reset_witness:
  "lastValue (finishGesture ''ios'' example_props
      \<lparr>dx = Fin (- 130), dy = Fin 0, vx = Fin 0, vy = Fin 0\<rparr> example_dragging) = None \<and>
   isMoving (finishGesture ''ios'' example_props
      \<lparr>dx = Fin (- 130), dy = Fin 0, vx = Fin 0, vy = Fin 0\<rparr> example_dragging) = None \<and>
   startDirection (finishGesture ''ios'' example_props
      \<lparr>dx = Fin (- 130), dy = Fin 0, vx = Fin 0, vy = Fin 0\<rparr> example_dragging) = Fin (- 12) \<and>
   fst (canMoveScreen example_props
          \<lparr>dx = Fin 15, dy = Fin 0, vx = Fin (1 / 2), vy = Fin 0\<rparr>
          (finishGesture ''ios'' example_props
             \<lparr>dx = Fin (- 130), dy = Fin 0, vx = Fin 0, vy = Fin 0\<rparr> example_dragging)) \<and>
   startDirection (snd (canMoveScreen example_props
          \<lparr>dx = Fin 15, dy = Fin 0, vx = Fin (1 / 2), vy = Fin 0\<rparr>
          (finishGesture ''ios'' example_props
             \<lparr>dx = Fin (- 130), dy = Fin 0, vx = Fin 0, vy = Fin 0\<rparr> example_dragging)))
     = Fin 15"
proof -
  let ?g = "\<lparr>dx = Fin (- 130), dy = Fin 0, vx = Fin 0, vy = Fin 0\<rparr>"
  let ?n = "\<lparr>dx = Fin 15, dy = Fin 0, vx = Fin (1 / 2), vy = Fin 0\<rparr>"
  let ?s = "finishGesture ''ios'' example_props ?g example_dragging"
  note t = finishGesture_session_reset [where os = "''ios''" and p = example_props
      and g = ?g and s = example_dragging and p' = example_props and g' = ?n]
  have claimed: "fst (canMoveScreen example_props ?n ?s)"
    by (simp add: canMoveScreen_fst example_defs DEAD_ZONE_def)
  from t have "lastValue ?s = None" and "isMoving ?s = None"
    and "startDirection ?s = startDirection example_dragging"
    by blast+
  moreover from t claimed have "startDirection (snd (canMoveScreen example_props ?n ?s)) = dx ?n"
    by blast
  ultimately show ?thesis using claimed
    by (simp add: example_dragging_def)
qed

text \<open>
  Claim C8 as the specification states it asks for \<^verbatim>\<open>_startDirection\<close> to have returned
  to its initial value after the gesture has ended. After the example drag is released it is not.
\<close>

theorem startDirection_kept_counterexample:
  "startDirection (finishGesture ''ios'' example_props
      \<lparr>dx = Fin (- 130), dy = Fin 0, vx = Fin 0, vy = Fin 0\<rparr> example_dragging)
   \<noteq> startDirection (componentWillMount example_props (Fin 0))"
  by (simp add: finishGesture_def Let_def jumpToIndex_def example_dragging_def
      componentWillMount_def)

text \<open>
  Claim C9. A release with \<open>dx = 0\<close> is safe, whether or not a threshold test lets it reach
  the target computation: \<^verbatim>\<open>index - dx / Math.abs(dx)\<close> is \<^verbatim>\<open>NaN\<close>, \<^verbatim>\<open>NaN\<close> fails the range
  check, and \<open>getNextIndex\<close> returns the current index. Every index the commit resolver
  requests for such a release is therefore the current index: it is not \<^verbatim>\<open>NaN\<close>, and it is
  within the routes whenever the current index is.
\<close>

theorem zero_displacement_release:
  assumes "dx g = Fin 0"
  shows "js_sub (num (index (navigationState p))) (js_div (dx g) (js_abs (dx g))) = NaN \<and>
     \<not> isIndexInRange p NaN \<and>
     getNextIndex os p g = num (index (navigationState p)) \<and>
     (\<exists>js. calls (finishGesture os p g s) = calls s @ map JumpToIndex js \<and>
        (\<forall>v\<in>set js. v = num (index (navigationState p)) \<and> v \<noteq> NaN \<and>
           (0 \<le> index (navigationState p) \<and>
            index (navigationState p) < int (array_length (routes (navigationState p)))
            \<longrightarrow> (\<exists>x. v = Fin x \<and> 0 \<le> x \<and>
                   x \<le> real (array_length (routes (navigationState p))) - 1))))"
proof (intro conjI)
  show "js_sub (num (index (navigationState p))) (js_div (dx g) (js_abs (dx g))) = NaN"
    using assms by (simp add: num_def)
  show "\<not> isIndexInRange p NaN"
    by (simp add: isIndexInRange_iff)
  show nxt: "getNextIndex os p g = num (index (navigationState p))"
    using assms by (simp add: getNextIndex_Fin num_def)
  let ?js = "if js_neq (lastOffset s) (num (index (navigationState p)))
             then [num (index (navigationState p))] else []"
  have "calls (finishGesture os p g s) = calls s @ map JumpToIndex ?js"
    by (simp add: finishGesture_calls nxt)
  moreover have "\<forall>v\<in>set ?js. v = num (index (navigationState p)) \<and> v \<noteq> NaN \<and>
           (0 \<le> index (navigationState p) \<and>
            index (navigationState p) < int (array_length (routes (navigationState p)))
            \<longrightarrow> (\<exists>x. v = Fin x \<and> 0 \<le> x \<and>
                   x \<le> real (array_length (routes (navigationState p))) - 1))"
    by (auto simp: num_def)
  ultimately show "\<exists>js. calls (finishGesture os p g s) = calls s @ map JumpToIndex js \<and>
        (\<forall>v\<in>set js. v = num (index (navigationState p)) \<and> v \<noteq> NaN \<and>
           (0 \<le> index (navigationState p) \<and>
            index (navigationState p) < int (array_length (routes (navigationState p)))
            \<longrightarrow> (\<exists>x. v = Fin x \<and> 0 \<le> x \<and>
                   x \<le> real (array_length (routes (navigationState p))) - 1)))"
    by blast
qed

text \<open>
  The example drag released with no displacement and a velocity of 1, above the threshold
  of 1/4: the request is for index 0.
\<close>

theorem zero_displacement_release_witness:
  "js_gt (js_abs (vx \<lparr>dx = Fin 0, dy = Fin 0, vx = Fin (- 1), vy = Fin 0\<rparr>))
     (swipeVelocityThreshold example_props) \<and>
   getNextIndex ''ios'' example_props
     \<lparr>dx = Fin 0, dy = Fin 0, vx = Fin (- 1), vy = Fin 0\<rparr> = Fin 0 \<and>
   calls (finishGesture ''ios'' example_props
            \<lparr>dx = Fin 0, dy = Fin 0, vx = Fin (- 1), vy = Fin 0\<rparr> example_dragging)
     = calls example_dragging @ [JumpToIndex (Fin 0)]"
proof -
  let ?g = "\<lparr>dx = Fin 0, dy = Fin 0, vx = Fin (- 1), vy = Fin 0\<rparr>"
  have h: "dx ?g = Fin 0" by simp
  have fast: "js_gt (js_abs (vx ?g)) (swipeVelocityThreshold example_props)"
    by (simp add: example_props_def js_gt_def)
  from zero_displacement_release [OF h, of example_props "''ios''" example_dragging]
  have nxt: "getNextIndex ''ios'' example_props ?g = num (index (navigationState example_props))"
    by blast
  then have idx: "getNextIndex ''ios'' example_props ?g = Fin 0"
    by (simp add: example_props_def num_def)
  have "calls (finishGesture ''ios'' example_props ?g example_dragging)
          = calls example_dragging @ [JumpToIndex (getNextIndex ''ios'' example_props ?g)]"
    by (simp add: finishGesture_calls isReverseDirection_def example_defs)
  with idx fast show ?thesis by simp
qed

section \<open>The gesture classifier\<close>

text \<open>
  A displacement beyond the dead zone at the ratio 100 : 150 is not three times the vertical
  one, rounded or not: the product \<open>3 dy\<close> is rounded to more than half of itself.
\<close>

lemma ratio_100_150:
  assumes "12 \<le> \<bar>100 * k\<bar>"
  shows "\<not> js_gt (Fin \<bar>100 * k\<bar>) (js_abs (js_mul (Fin (150 * k)) (Fin 3)))"
proof -
  let ?y = "\<bar>150 * k * 3\<bar>"
  have y: "1 \<le> ?y" and h: "\<bar>100 * k\<bar> \<le> ?y / 2" using assms by (simp_all add: abs_mult)
  have "js_abs (js_mul (Fin (150 * k)) (Fin 3)) = round64 ?y"
    by (simp add: js_abs_round64)
  moreover from round64_half [OF y]
  have "\<not> js_gt (Fin \<bar>100 * k\<bar>) (round64 ?y)"
    using h by (auto simp: js_gt_def)
  ultimately show ?thesis by simp
qed

text \<open>
  Claim C4. The classifier claims a sample only if \<open>|dx| > 3 |dy|\<close> and \<open>|vx| > 3 |vy|\<close>, the
  displacement has left the dead zone (\<open>dx \<ge> 12\<close> or \<open>dx \<le> -12\<close>) and swiping is not disabled.
  A sample with \<open>dx = 100\<close> and \<open>dy = 150\<close>, at any scale \<open>k\<close> and with any velocities, is not
  claimed; and nothing is claimed when \<^verbatim>\<open>swipeEnabled\<close> is \<^verbatim>\<open>false\<close>.
\<close>

theorem classifier_claims_only_horizontal:
  "(fst (canMoveScreen p g s) \<longrightarrow>
      js_gt (js_abs (dx g)) (js_mul (Fin 3) (js_abs (dy g))) \<and>
      js_gt (js_abs (vx g)) (js_mul (Fin 3) (js_abs (vy g))) \<and>
      (js_ge (dx g) (Fin 12) \<or> js_le (dx g) (Fin (- 12))) \<and>
      swipeEnabled p \<noteq> Some False) \<and>
   (dx g = Fin (100 * k) \<and> dy g = Fin (150 * k) \<longrightarrow> \<not> fst (canMoveScreen p g s)) \<and>
   (swipeEnabled p = Some False \<longrightarrow> \<not> fst (canMoveScreen p g s))"
proof -
  have only_if: "js_gt (js_abs (dx g)) (js_mul (Fin 3) (js_abs (dy g))) \<and>
      js_gt (js_abs (vx g)) (js_mul (Fin 3) (js_abs (vy g))) \<and>
      (js_ge (dx g) (Fin 12) \<or> js_le (dx g) (Fin (- 12))) \<and>
      swipeEnabled p \<noteq> Some False"
    if "fst (canMoveScreen p g s)"
    using that
    by (auto simp: canMoveScreen_fst isMovingHorzontally_def js_abs_mul3 DEAD_ZONE_def)
  have vertical: "\<not> fst (canMoveScreen p g s)"
    if r: "dx g = Fin (100 * k) \<and> dy g = Fin (150 * k)"
  proof
    assume "fst (canMoveScreen p g s)"
    with r have "js_gt (Fin \<bar>100 * k\<bar>) (js_abs (js_mul (Fin (150 * k)) (Fin 3)))"
      and "js_ge (Fin (100 * k)) (Fin 12) \<or> js_le (Fin (100 * k)) (Fin (- 12))"
      by (auto simp: canMoveScreen_fst isMovingHorzontally_def DEAD_ZONE_def)
    moreover from this(2) have "12 \<le> \<bar>100 * k\<bar>"
      by (auto simp: js_ge_Fin js_le_Fin)
    ultimately show False using ratio_100_150 by blast
  qed
  have disabled: "\<not> fst (canMoveScreen p g s)" if "swipeEnabled p = Some False"
    using that by (simp add: canMoveScreen_fst)
  from only_if vertical disabled show ?thesis by blast
qed

text \<open>
  A sample 12 to the left with a horizontal velocity is claimed on the mounted pager; the
  sample of the specification is not, and neither is the first one once swiping is
  disabled.
\<close>

theorem classifier_claims_only_horizontal_witness:
  "fst (canMoveScreen example_props
          \<lparr>dx = Fin (- 12), dy = Fin 0, vx = Fin (- 1 / 2), vy = Fin 0\<rparr>
          (componentWillMount example_props (Fin 0))) \<and>
   js_gt (js_abs (Fin (- 12))) (js_mul (Fin 3) (js_abs (Fin 0))) \<and>
   js_gt (js_abs (Fin (- 1 / 2))) (js_mul (Fin 3) (js_abs (Fin 0))) \<and>
   js_le (Fin (- 12)) (Fin (- 12)) \<and>
   \<not> fst (canMoveScreen example_props
          \<lparr>dx = Fin 100, dy = Fin 150, vx = Fin 1, vy = Fin 0\<rparr>
          (componentWillMount example_props (Fin 0))) \<and>
   \<not> fst (canMoveScreen (example_props\<lparr>swipeEnabled := Some False\<rparr>)
          \<lparr>dx = Fin (- 12), dy = Fin 0, vx = Fin (- 1 / 2), vy = Fin 0\<rparr>
          (componentWillMount example_props (Fin 0)))"
proof -
  let ?g = "\<lparr>dx = Fin (- 12), dy = Fin 0, vx = Fin (- 1 / 2), vy = Fin 0\<rparr>"
  let ?v = "\<lparr>dx = Fin 100, dy = Fin 150, vx = Fin 1, vy = Fin 0\<rparr>"
  let ?s = "componentWillMount example_props (Fin 0)"
  have claimed: "fst (canMoveScreen example_props ?g ?s)"
    by (simp add: canMoveScreen_def example_defs DEAD_ZONE_def)
  have vertical: "dx ?v = Fin (100 * 1) \<and> dy ?v = Fin (150 * 1)"
    by simp
  have disabled: "swipeEnabled (example_props\<lparr>swipeEnabled := Some False\<rparr>) = Some False"
    by simp
  have 1: "js_gt (js_abs (dx ?g)) (js_mul (Fin 3) (js_abs (dy ?g))) \<and>
      js_gt (js_abs (vx ?g)) (js_mul (Fin 3) (js_abs (vy ?g))) \<and>
      (js_ge (dx ?g) (Fin 12) \<or> js_le (dx ?g) (Fin (- 12)))"
    using classifier_claims_only_horizontal [where p = example_props and g = ?g and s = ?s]
      claimed by blast
  have 2: "\<not> fst (canMoveScreen example_props ?v ?s)"
    using classifier_claims_only_horizontal [where p = example_props and g = ?v and s = ?s
        and k = 1] vertical by blast
  have 3: "\<not> fst (canMoveScreen (example_props\<lparr>swipeEnabled := Some False\<rparr>) ?g ?s)"
    using classifier_claims_only_horizontal
      [where p = "example_props\<lparr>swipeEnabled := Some False\<rparr>" and g = ?g and s = ?s]
      disabled by blast
  from 1 have "js_gt (js_abs (Fin (- 12))) (js_mul (Fin 3) (js_abs (Fin 0))) \<and>
      js_gt (js_abs (Fin (- 1 / 2))) (js_mul (Fin 3) (js_abs (Fin 0))) \<and>
      js_le (Fin (- 12)) (Fin (- 12))"
    by (simp add: js_ge_def js_le_def)
  with claimed 2 3 show ?thesis by simp
qed

text \<open>
  A move sample either changes nothing but \<open>isMoving\<close>, or writes its candidate, which is
  then within the routes.
\<close>

lemma respondToGesture_effect:
  "(calls (respondToGesture p g s) = calls s \<and>
    offset_value (respondToGesture p g s) = offset_value s) \<or>
   (isIndexInRange p
      (js_sub (case lastValue s of Some v \<Rightarrow> v | None \<Rightarrow> num (index (navigationState p)))
         (js_div (dx g) (width (layout p)))) \<and>
    calls (respondToGesture p g s) = calls s @
      [SetValue (js_sub (case lastValue s of Some v \<Rightarrow> v
                         | None \<Rightarrow> num (index (navigationState p)))
                   (js_div (dx g) (width (layout p))))] \<and>
    offset_value (respondToGesture p g s) =
      js_sub (case lastValue s of Some v \<Rightarrow> v | None \<Rightarrow> num (index (navigationState p)))
        (js_div (dx g) (width (layout p))))"
  by (simp add: respondToGesture_def Let_def offset_setValue_def trackOffset_def)

text \<open>
  From the first route a rightward displacement gives a candidate that is not above 0,
  and from the last route a leftward one gives a candidate that is not below the last
  index: the quotient \<open>dx / width\<close> keeps its sign when it is rounded, and the difference is
  rounded towards a double, which the edge is.
\<close>

lemma candidate_at_first:
  assumes "0 < x" and "0 < w"
    and "isIndexInRange p (js_sub (Fin 0) (js_div (Fin x) (Fin w)))"
  shows "js_sub (Fin 0) (js_div (Fin x) (Fin w)) = Fin 0"
proof -
  have "0 \<le> x / w" using assms(1,2) by simp
  from round64_nonneg [OF this]
  consider "round64 (x / w) = PosInf" | v where "round64 (x / w) = Fin v" "0 \<le> v" by blast
  then show ?thesis
  proof cases
    case 1
    with assms show ?thesis by (simp add: isIndexInRange_iff)
  next
    case 2
    then have "- v \<le> 0" by simp
    from round64_le [OF round64_zero this] 2 assms show ?thesis
      by (auto simp: isIndexInRange_iff)
  qed
qed

lemma candidate_at_last:
  assumes "x < 0" and "0 < w"
    and "e = int (array_length (routes (navigationState p))) - 1"
    and "isIndexInRange p (js_sub (num e) (js_div (Fin x) (Fin w)))"
  shows "js_sub (num e) (js_div (Fin x) (Fin w)) = num e"
proof -
  have n: "int (array_length (routes (navigationState p))) < 2 ^ 32"
    using array_length_bound [of "routes (navigationState p)"]
    by (metis of_nat_less_iff of_nat_numeral of_nat_power)
  have e: "round64 (of_int e) = Fin (of_int e)"
    using n assms(3) by (intro round64_int) simp
  have "x / w \<le> 0" using assms(1,2) by (simp add: divide_nonpos_pos)
  from round64_le [OF round64_zero this]
  consider "round64 (x / w) = NegInf" | v where "round64 (x / w) = Fin v" "v \<le> 0" by blast
  then show ?thesis
  proof cases
    case 1
    with assms show ?thesis by (simp add: isIndexInRange_iff num_def)
  next
    case 2
    then have "real_of_int e \<le> of_int e - v" by simp
    from round64_ge [OF e this] 2 assms show ?thesis
      by (auto simp: isIndexInRange_iff num_def)
  qed
qed

text \<open>
  Claim C10. For a current index within the routes, both edge guards of the classifier
  (\<^verbatim>\<open>index >= 0\<close> and \<^verbatim>\<open>index <= routes.length - 1\<close>) are true, so the classifier claims
  exactly the horizontal samples beyond the dead zone, in either direction, unless swiping
  is disabled; at index 0 this includes a rightward sample. Movement past the first route
  is stopped later, by the two range checks: for a rightward displacement at index 0 the
  commit resolver returns index 0, and the drag tracker, starting from offset 0 on a
  viewport of positive width, writes nothing or, when the displacement is too small to
  change the rounded offset, the value 0 again. The same holds for a leftward displacement
  at the last index.
\<close>

theorem classifier_ignores_edges:
  assumes "0 \<le> index (navigationState p)"
    and "index (navigationState p) \<le> int (array_length (routes (navigationState p))) - 1"
  shows "js_ge (num (index (navigationState p))) (Fin 0) \<and>
     js_le (num (index (navigationState p)))
       (num (int (array_length (routes (navigationState p))) - 1)) \<and>
     fst (canMoveScreen p g s) =
       (swipeEnabled p \<noteq> Some False \<and> isMovingHorzontally g \<and>
        (js_ge (dx g) (Fin 12) \<or> js_le (dx g) (Fin (- 12)))) \<and>
     (index (navigationState p) = 0 \<and> dx g = Fin x \<and> 0 < x
        \<longrightarrow> getNextIndex os p g = num 0) \<and>
     (index (navigationState p) = 0 \<and> dx g = Fin x \<and> 0 < x \<and>
      width (layout p) = Fin w \<and> 0 < w \<and> (lastValue s = None \<or> lastValue s = Some (Fin 0))
        \<longrightarrow> (calls (respondToGesture p g s) = calls s \<and>
             offset_value (respondToGesture p g s) = offset_value s) \<or>
            (calls (respondToGesture p g s) = calls s @ [SetValue (Fin 0)] \<and>
             offset_value (respondToGesture p g s) = Fin 0)) \<and>
     (index (navigationState p) = int (array_length (routes (navigationState p))) - 1 \<and>
      dx g = Fin x \<and> x < 0
        \<longrightarrow> getNextIndex os p g = num (index (navigationState p))) \<and>
     (index (navigationState p) = int (array_length (routes (navigationState p))) - 1 \<and>
      dx g = Fin x \<and> x < 0 \<and> width (layout p) = Fin w \<and> 0 < w \<and>
      (lastValue s = None \<or> lastValue s = Some (num (index (navigationState p))))
        \<longrightarrow> (calls (respondToGesture p g s) = calls s \<and>
             offset_value (respondToGesture p g s) = offset_value s) \<or>
            (calls (respondToGesture p g s)
               = calls s @ [SetValue (num (index (navigationState p)))] \<and>
             offset_value (respondToGesture p g s) = num (index (navigationState p))))"
proof -
  let ?i = "index (navigationState p)"
  let ?c = "js_sub (case lastValue s of Some v \<Rightarrow> v | None \<Rightarrow> num ?i)
              (js_div (dx g) (width (layout p)))"
  have guards: "js_ge (num ?i) (Fin 0)"
    "js_le (num ?i) (num (int (array_length (routes (navigationState p))) - 1))"
    using assms by (simp_all add: num_def js_ge_Fin js_le_Fin)
  have claim: "fst (canMoveScreen p g s) =
       (swipeEnabled p \<noteq> Some False \<and> isMovingHorzontally g \<and>
        (js_ge (dx g) (Fin 12) \<or> js_le (dx g) (Fin (- 12))))"
    using guards by (simp add: canMoveScreen_fst DEAD_ZONE_def)
  have commit: "getNextIndex os p g = num 0"
    if "?i = 0 \<and> dx g = Fin x \<and> 0 < x"
    using that by (simp add: getNextIndex_Fin num_def)
  have drag: "(calls (respondToGesture p g s) = calls s \<and>
             offset_value (respondToGesture p g s) = offset_value s) \<or>
            (calls (respondToGesture p g s) = calls s @ [SetValue (Fin 0)] \<and>
             offset_value (respondToGesture p g s) = Fin 0)"
    if h: "?i = 0 \<and> dx g = Fin x \<and> 0 < x \<and>
      width (layout p) = Fin w \<and> 0 < w \<and> (lastValue s = None \<or> lastValue s = Some (Fin 0))"
  proof -
    from h have c: "?c = js_sub (Fin 0) (js_div (Fin x) (Fin w))"
      by (auto simp: num_def)
    from h have "isIndexInRange p ?c \<longrightarrow> ?c = Fin 0"
      unfolding c using candidate_at_first [of x w p] by blast
    with respondToGesture_effect [of p g s] show ?thesis by metis
  qed
  have commit_last: "getNextIndex os p g = num ?i"
    if "?i = int (array_length (routes (navigationState p))) - 1 \<and> dx g = Fin x \<and> x < 0"
    using that by (simp add: getNextIndex_Fin num_def)
  have drag_last: "(calls (respondToGesture p g s) = calls s \<and>
             offset_value (respondToGesture p g s) = offset_value s) \<or>
            (calls (respondToGesture p g s) = calls s @ [SetValue (num ?i)] \<and>
             offset_value (respondToGesture p g s) = num ?i)"
    if h: "?i = int (array_length (routes (navigationState p))) - 1 \<and>
      dx g = Fin x \<and> x < 0 \<and> width (layout p) = Fin w \<and> 0 < w \<and>
      (lastValue s = None \<or> lastValue s = Some (num ?i))"
  proof -
    from h have c: "?c = js_sub (num ?i) (js_div (Fin x) (Fin w))"
      by auto
    from h have "isIndexInRange p ?c \<longrightarrow> ?c = num ?i"
      unfolding c using candidate_at_last [of x w ?i p] by blast
    with respondToGesture_effect [of p g s] show ?thesis by metis
  qed
  from guards claim commit drag commit_last drag_last show ?thesis by blast
qed

text \<open>
  On the first of the three routes a sample 12 to the right is claimed, although there is
  no route before it; a release 150 to the right requests index 0, and a move 150 to the
  right after the grant, whose candidate is -1/2, writes nothing. On the last route a
  release 150 to the left requests index 2, and a move 150 to the left after the grant,
  whose candidate is 5/2, writes nothing.
\<close>

theorem classifier_ignores_edges_witness:
  "fst (canMoveScreen example_props
          \<lparr>dx = Fin 12, dy = Fin 0, vx = Fin (1 / 2), vy = Fin 0\<rparr>
          (componentWillMount example_props (Fin 0))) \<and>
   getNextIndex ''ios'' example_props
     \<lparr>dx = Fin 150, dy = Fin 0, vx = Fin (1 / 2), vy = Fin 0\<rparr> = Fin 0 \<and>
   calls (respondToGesture example_props
            \<lparr>dx = Fin 150, dy = Fin 0, vx = Fin (1 / 2), vy = Fin 0\<rparr>
            (startGesture (componentWillMount example_props (Fin 0))))
     = [StopAnimation] \<and>
   getNextIndex ''ios''
     (example_props\<lparr>navigationState :=
        \<lparr>index = 2, routes = js_array [''first'', ''second'', ''third'']\<rparr>\<rparr>)
     \<lparr>dx = Fin (- 150), dy = Fin 0, vx = Fin (- 1 / 2), vy = Fin 0\<rparr> = Fin 2 \<and>
   calls (respondToGesture
            (example_props\<lparr>navigationState :=
               \<lparr>index = 2, routes = js_array [''first'', ''second'', ''third'']\<rparr>\<rparr>)
            \<lparr>dx = Fin (- 150), dy = Fin 0, vx = Fin (- 1 / 2), vy = Fin 0\<rparr>
            (startGesture (componentWillMount example_props (Fin 2))))
     = [StopAnimation]"
proof -
  let ?q = "example_props\<lparr>navigationState :=
              \<lparr>index = 2, routes = js_array [''first'', ''second'', ''third'']\<rparr>\<rparr>"
  let ?l = "\<lparr>dx = Fin (- 150), dy = Fin 0, vx = Fin (- 1 / 2), vy = Fin 0\<rparr>"
  let ?t = "startGesture (componentWillMount example_props (Fin 2))"
  let ?g = "\<lparr>dx = Fin 12, dy = Fin 0, vx = Fin (1 / 2), vy = Fin 0\<rparr>"
  let ?m = "\<lparr>dx = Fin 150, dy = Fin 0, vx = Fin (1 / 2), vy = Fin 0\<rparr>"
  let ?s = "componentWillMount example_props (Fin 0)"
  have i0: "0 \<le> index (navigationState example_props)"
    and i1: "index (navigationState example_props)
              \<le> int (array_length (routes (navigationState example_props))) - 1"
    by (simp_all add: example_props_def three_routes)
  have j0: "0 \<le> index (navigationState ?q)"
    and j1: "index (navigationState ?q) \<le> int (array_length (routes (navigationState ?q))) - 1"
    by (simp_all add: three_routes)
  have horizontal: "swipeEnabled example_props \<noteq> Some False \<and> isMovingHorzontally ?g \<and>
        (js_ge (dx ?g) (Fin 12) \<or> js_le (dx ?g) (Fin (- 12)))"
    by (simp add: example_defs)
  have right: "index (navigationState example_props) = 0 \<and> dx ?m = Fin 150 \<and> (0 :: real) < 150"
    by (simp add: example_props_def)
  have left: "index (navigationState ?q) = int (array_length (routes (navigationState ?q))) - 1 \<and>
      dx ?l = Fin (- 150) \<and> (- 150 :: real) < 0"
    by (simp add: three_routes)
  have 1: "fst (canMoveScreen example_props ?g ?s)"
    using classifier_ignores_edges [OF i0 i1, where g = ?g and s = ?s] horizontal by blast
  have "getNextIndex ''ios'' example_props ?m = num 0"
    using classifier_ignores_edges [OF i0 i1, where g = ?m and x = 150 and os = "''ios''"]
      right by blast
  then have 2: "getNextIndex ''ios'' example_props ?m = Fin 0"
    by (simp add: num_def)
  have 3: "calls (respondToGesture example_props ?m (startGesture ?s)) = [StopAnimation]"
    by (simp add: example_defs startGesture_def offset_stopAnimation_def
        componentWillMount_def)
  have "getNextIndex ''ios'' ?q ?l = num (index (navigationState ?q))"
    using classifier_ignores_edges [OF j0 j1, where g = ?l and x = "- 150" and os = "''ios''"]
      left by blast
  then have 4: "getNextIndex ''ios'' ?q ?l = Fin 2"
    by (simp add: num_def)
  have 5: "calls (respondToGesture ?q ?l ?t) = [StopAnimation]"
    by (simp add: example_defs startGesture_def offset_stopAnimation_def
        componentWillMount_def)
  from 1 2 3 4 5 show ?thesis by simp
qed

section \<open>The platform normalisation of the velocity threshold\<close>

text \<open>A positive number up to 1/16 is rounded to a number between 0 and 1/16.\<close>

lemma round64_small:
  assumes "0 < x" and "x \<le> 1 / 16"
  shows "\<exists>v. round64 x = Fin v \<and> 0 \<le> v \<and> v \<le> 1 / 16"
  using round64_below [OF assms round64_values(8)] .

text \<open>
  Claim C5 as the specification states it divides the raw velocity by 1,000,000 on Android
  and compares the quotient with the configured threshold, which is \<open>getNextIndex_spec\<close>.
  The code divides the threshold instead. With the default thresholds on the first of three
  routes, a release 50 to the left at velocity -1/10 is below both thresholds in the
  specification's reading and stays at index 0, while the code compares 1/10 with
  the quotient of 1/4 and 1000000 and moves to index 1.
\<close>

theorem velocity_divided_counterexample:
  "getNextIndex ''android'' example_props
     \<lparr>dx = Fin (- 50), dy = Fin 0, vx = Fin (- 1 / 10), vy = Fin 0\<rparr>
   \<noteq> getNextIndex_spec ''android'' example_props
     \<lparr>dx = Fin (- 50), dy = Fin 0, vx = Fin (- 1 / 10), vy = Fin 0\<rparr>"
proof -
  let ?g = "\<lparr>dx = Fin (- 50), dy = Fin 0, vx = Fin (- 1 / 10), vy = Fin 0\<rparr>"
  obtain t where t: "round64 (1 / 4000000) = Fin t" "t \<le> 1 / 16"
    using round64_small [of "1 / 4000000"] by auto
  obtain u where u: "round64 (1 / 10000000) = Fin u" "u \<le> 1 / 16"
    using round64_small [of "1 / 10000000"] by auto
  have "js_abs (js_div (Fin (- 1 / 10)) (Fin 1000000)) = Fin u"
    using u(1) by (simp add: js_abs_round64)
  then have "getNextIndex_spec ''android'' example_props ?g = Fin 0"
    using u(2)
    by (simp add: getNextIndex_spec_def normalizeVelocity_def example_props_def num_def
        js_gt_def Let_def del: js_div.simps)
  moreover have "js_div (Fin (1 / 4)) (Fin 1000000) = Fin t"
    using t(1) by simp
  then have "getNextIndex ''android'' example_props ?g = Fin 1"
    using t(2)
    by (simp add: getNextIndex_def example_defs del: js_div.simps)
       (simp add: round64_values)
  ultimately show ?thesis by simp
qed

text \<open>
  Claim C5, as the code has it. On Android the configured threshold, not the velocity, is
  divided by 1,000,000 and the raw \<open>|vx|\<close> is compared with the quotient: the decision is the
  one the other platform takes with that smaller threshold. On any other platform the raw
  \<open>|vx|\<close> is compared with the configured threshold unchanged.
\<close>

theorem velocity_threshold_divided:
  "getNextIndex ''android'' p g =
     getNextIndex ''ios''
       (p\<lparr>swipeVelocityThreshold := js_div (swipeVelocityThreshold p) (Fin 1000000)\<rparr>) g \<and>
   getNextIndex ''android'' p g =
     (if js_gt (js_abs (dx g)) (swipeDistanceThreshold p) \<or>
         js_gt (js_abs (vx g)) (js_div (swipeVelocityThreshold p) (Fin 1000000))
      then (if isIndexInRange p
                 (js_sub (num (index (navigationState p))) (js_div (dx g) (js_abs (dx g))))
            then js_sub (num (index (navigationState p))) (js_div (dx g) (js_abs (dx g)))
            else num (index (navigationState p)))
      else num (index (navigationState p))) \<and>
   (os \<noteq> ''android'' \<longrightarrow>
      getNextIndex os p g =
        (if js_gt (js_abs (dx g)) (swipeDistanceThreshold p) \<or>
            js_gt (js_abs (vx g)) (swipeVelocityThreshold p)
         then (if isIndexInRange p
                    (js_sub (num (index (navigationState p))) (js_div (dx g) (js_abs (dx g))))
               then js_sub (num (index (navigationState p))) (js_div (dx g) (js_abs (dx g)))
               else num (index (navigationState p)))
         else num (index (navigationState p))))"
  by (simp add: getNextIndex_def Let_def isIndexInRange_def)

text \<open>
  The release of the counterexample: on the other platform 1/10 is below 1/4 and index 0
  is kept; on Android the threshold is at most 1/16 after the division, and index 1 is
  requested.
\<close>

theorem velocity_threshold_divided_witness:
  "''ios'' \<noteq> ''android'' \<and>
   getNextIndex ''ios'' example_props
     \<lparr>dx = Fin (- 50), dy = Fin 0, vx = Fin (- 1 / 10), vy = Fin 0\<rparr> = Fin 0 \<and>
   getNextIndex ''android'' example_props
     \<lparr>dx = Fin (- 50), dy = Fin 0, vx = Fin (- 1 / 10), vy = Fin 0\<rparr> = Fin 1"
proof -
  let ?g = "\<lparr>dx = Fin (- 50), dy = Fin 0, vx = Fin (- 1 / 10), vy = Fin 0\<rparr>"
  have os: "''ios'' \<noteq> ''android''" by simp
  note t = velocity_threshold_divided [where p = example_props and g = ?g and os = "''ios''"]
  from t os have "getNextIndex ''ios'' example_props ?g =
        (if js_gt (js_abs (dx ?g)) (swipeDistanceThreshold example_props) \<or>
            js_gt (js_abs (vx ?g)) (swipeVelocityThreshold example_props)
         then (if isIndexInRange example_props
                    (js_sub (num (index (navigationState example_props)))
                       (js_div (dx ?g) (js_abs (dx ?g))))
               then js_sub (num (index (navigationState example_props)))
                      (js_div (dx ?g) (js_abs (dx ?g)))
               else num (index (navigationState example_props)))
         else num (index (navigationState example_props)))"
    by blast
  then have 1: "getNextIndex ''ios'' example_props ?g = Fin 0"
    by (simp add: example_props_def js_gt_def num_def)
  obtain v where v: "round64 (1 / 4000000) = Fin v" "v \<le> 1 / 16"
    using round64_small [of "1 / 4000000"] by auto
  then have q: "js_div (swipeVelocityThreshold example_props) (Fin 1000000) = Fin v"
    by (simp add: example_props_def)
  from t have "getNextIndex ''android'' example_props ?g =
     (if js_gt (js_abs (dx ?g)) (swipeDistanceThreshold example_props) \<or>
         js_gt (js_abs (vx ?g)) (js_div (swipeVelocityThreshold example_props) (Fin 1000000))
      then (if isIndexInRange example_props
                 (js_sub (num (index (navigationState example_props)))
                    (js_div (dx ?g) (js_abs (dx ?g))))
            then js_sub (num (index (navigationState example_props)))
                   (js_div (dx ?g) (js_abs (dx ?g)))
            else num (index (navigationState example_props)))
      else num (index (navigationState example_props)))"
    by blast
  then have 2: "getNextIndex ''android'' example_props ?g = Fin 1"
    unfolding q using v(2) by (simp add: example_defs)
  from os 1 2 show ?thesis by simp
qed

section \<open>The transition driver\<close>

lemma transitionTo_instant:
  assumes "configureTransition p = None \<or>
           (\<exists>f. configureTransition p = Some f \<and> f \<lparr>position = a\<rparr> \<lparr>position = b\<rparr> = None)"
  shows "transitionTo p a b s = offset_setValue (num b) s"
  using assms by (auto simp: transitionTo_def Let_def)

lemma transitionTo_animated:
  assumes "configureTransition p = Some f"
    and "f \<lparr>position = a\<rparr> \<lparr>position = b\<rparr> = Some ts"
  shows "transitionTo p a b s =
     timing_start (timing ts)
       (AList.update ''toValue'' (Number (num b)) (transitionConfig ts)) s"
  using assms by (simp add: transitionTo_def Let_def)

text \<open>
  Claim C6 as the specification states it: \<^verbatim>\<open>_transitionTo(i, i)\<close> never changes the offset.
  In the middle of the example drag the offset is 1/2; when the pager is re-rendered
  there with a configurator that returns no specification, \<^verbatim>\<open>_transitionTo(0, 0)\<close> sets the
  offset to 0.
\<close>

theorem settle_changes_offset_counterexample:
  "offset_value
     (transitionTo (example_props\<lparr>configureTransition := Some instantTransition\<rparr>) 0 0
        example_dragging)
   \<noteq> offset_value example_dragging"
  by (simp add: transitionTo_def instantTransition_def example_props_def example_dragging_def
      offset_setValue_def trackOffset_def num_def Let_def)

text \<open>
  Claim C6, as the code has it. When the offset already holds \<open>i\<close>, \<^verbatim>\<open>_transitionTo(i, i)\<close>
  leaves its value at \<open>i\<close> on both branches. Without a specification the only call is
  \<^verbatim>\<open>setValue(i)\<close>; with a specification the only call starts its \<^verbatim>\<open>timing\<close> function with
  \<^verbatim>\<open>toValue\<close> set to \<open>i\<close>, so the animation in flight has target \<open>i\<close>, and no value is written.
\<close>

theorem settle_at_rest:
  assumes "offset_value s = num i"
  shows "offset_value (transitionTo p i i s) = num i \<and>
     (configureTransition p = None \<or>
      (\<exists>f. configureTransition p = Some f \<and> f \<lparr>position = i\<rparr> \<lparr>position = i\<rparr> = None)
      \<longrightarrow> calls (transitionTo p i i s) = calls s @ [SetValue (num i)]) \<and>
     (\<forall>f ts. configureTransition p = Some f \<and> f \<lparr>position = i\<rparr> \<lparr>position = i\<rparr> = Some ts
      \<longrightarrow> calls (transitionTo p i i s)
            = calls s @ [Start (timing ts)
                (AList.update ''toValue'' (Number (num i)) (transitionConfig ts))] \<and>
          offset_animation (transitionTo p i i s) = Some (num i))"
proof (intro conjI impI allI)
  show "offset_value (transitionTo p i i s) = num i"
    using assms
    by (auto simp: transitionTo_def Let_def offset_setValue_def trackOffset_def
        timing_start_def split: option.splits)
next
  assume "configureTransition p = None \<or>
      (\<exists>f. configureTransition p = Some f \<and> f \<lparr>position = i\<rparr> \<lparr>position = i\<rparr> = None)"
  then show "calls (transitionTo p i i s) = calls s @ [SetValue (num i)]"
    by (simp add: transitionTo_instant offset_setValue_def trackOffset_def)
next
  fix f ts
  assume a: "configureTransition p = Some f \<and>
             f \<lparr>position = i\<rparr> \<lparr>position = i\<rparr> = Some ts"
  then show "calls (transitionTo p i i s)
            = calls s @ [Start (timing ts)
                (AList.update ''toValue'' (Number (num i)) (transitionConfig ts))]"
    by (simp add: transitionTo_animated timing_start_def)
  from a show "offset_animation (transitionTo p i i s) = Some (num i)"
    by (simp add: transitionTo_animated timing_start_def update_conv')
qed

text \<open>
  The mounted pager rests at offset 0. With the default configurator \<^verbatim>\<open>_transitionTo(0, 0)\<close>
  starts the spring towards 0; with a configurator that returns no specification it sets
  the offset to 0. The offset is 0 afterwards in both cases.
\<close>

theorem settle_at_rest_witness:
  "offset_value (componentWillMount example_props (Fin 0)) = num 0 \<and>
   offset_value (transitionTo example_props 0 0 (componentWillMount example_props (Fin 0)))
     = Fin 0 \<and>
   calls (transitionTo example_props 0 0 (componentWillMount example_props (Fin 0)))
     = [Start Animated_spring
          [(''tension'', Number (Fin 300)), (''friction'', Number (Fin 35)),
           (''useNativeDriver'', Boolean True), (''toValue'', Number (Fin 0))]] \<and>
   offset_value
     (transitionTo (example_props\<lparr>configureTransition := Some instantTransition\<rparr>) 0 0
        (componentWillMount example_props (Fin 0))) = Fin 0 \<and>
   calls
     (transitionTo (example_props\<lparr>configureTransition := Some instantTransition\<rparr>) 0 0
        (componentWillMount example_props (Fin 0))) = [SetValue (Fin 0)]"
proof -
  let ?s = "componentWillMount example_props (Fin 0)"
  let ?q = "example_props\<lparr>configureTransition := Some instantTransition\<rparr>"
  have rest: "offset_value ?s = num 0"
    by (simp add: componentWillMount_def num_def)
  have animated: "configureTransition example_props = Some defaultProps_configureTransition \<and>
      defaultProps_configureTransition \<lparr>position = 0\<rparr> \<lparr>position = 0\<rparr>
        = Some DefaultTransitionSpec"
    by (simp add: example_props_def defaultProps_configureTransition_def)
  have instant: "configureTransition ?q = None \<or>
      (\<exists>f. configureTransition ?q = Some f \<and> f \<lparr>position = 0\<rparr> \<lparr>position = 0\<rparr> = None)"
    by (simp add: instantTransition_def)
  note a = settle_at_rest [OF rest, of example_props]
  note b = settle_at_rest [OF rest, of ?q]
  from a have a1: "offset_value (transitionTo example_props 0 0 ?s) = num 0"
    by blast
  from a animated have a2: "calls (transitionTo example_props 0 0 ?s)
        = calls ?s @ [Start (timing DefaultTransitionSpec)
            (AList.update ''toValue'' (Number (num 0)) (transitionConfig DefaultTransitionSpec))]"
    by blast
  from b have b1: "offset_value (transitionTo ?q 0 0 ?s) = num 0"
    by blast
  from b instant have b2: "calls (transitionTo ?q 0 0 ?s) = calls ?s @ [SetValue (num 0)]"
    by blast
  from rest a1 a2 b1 b2 show ?thesis
    by (simp add: num_def componentWillMount_def DefaultTransitionSpec_def)
qed

end
